theory Spec2Isabelle
  imports Main "HOL-Library.AList"
begin

unbundle bit_operations_syntax

section \<open>The image deserializer (Source/Readers/ImageReader/ImageDataDeserializer.cpp)\<close>

text \<open>
  A shallow embedding of \<^verbatim>\<open>ImageDataDeserializer.cpp\<close>. Member and local names are the
  source's. Several classes of the source share member names (\<^verbatim>\<open>m_id\<close>,
  \<^verbatim>\<open>m_numberOfSamples\<close>, \<^verbatim>\<open>m_data\<close>, ...); the records below keep them and the
  definitions qualify them with the record's name.

  Values of type \<^verbatim>\<open>size_t\<close> that count the elements of in-memory vectors (sequence ids,
  start indices, sample counts) are natural numbers: they cannot wrap before memory is
  exhausted. The one place where wrap-around of an unsigned 64-bit value is observable,
  \<^verbatim>\<open>strtoull\<close>, writes it out.
\<close>

subsection \<open>Errors\<close>

text \<open>
  Every \<^verbatim>\<open>RuntimeError\<close> of the source is one constructor, named after its message. The
  remaining constructors are the failures the source leaves to the C++ runtime and to the
  libraries it calls: a failed \<^verbatim>\<open>assert\<close> (debug builds only), \<^verbatim>\<open>std::out_of_range\<close> of
  \<^verbatim>\<open>std::string::substr\<close>, the exception of \<^verbatim>\<open>boost::interprocess::file_mapping\<close>,
  an index outside a vector and a null or dangling pointer (undefined behaviour in C++),
  and \<^verbatim>\<open>shared_from_this\<close> on an object no \<^verbatim>\<open>shared_ptr\<close> owns.
\<close>

datatype error =
    CouldNotOpenForReading
  | InvalidMapFileFormat nat
  | CannotParseLabelValue nat
  | InvalidClassId string nat nat nat
  | MaximumNumberOfChunksExceeded
  | BuiltWithoutZipSupport
  | LabelDimensionExceedsMaximum nat nat
  | CannotOpenFile string
  | AssertionFailed
  | SubstrOutOfRange
  | FileMappingFailed string
  | ZipEntryNotFound string string
  | IndexOutOfRange
  | NullPointer
  | BadWeakPtr
  | SingleFeatureAndLabelStream nat nat
  | UnsupportedLabelElementType

subsection \<open>Build configuration and constants declared outside this file\<close>

text \<open>
  \<^verbatim>\<open>USE_ZIP\<close> and \<^verbatim>\<open>NDEBUG\<close> are preprocessor switches; \<^verbatim>\<open>CHUNKID_MAX\<close> is a macro of
  DataDeserializer.h, which is not part of the sources at hand, so it is a parameter.
\<close>

record build_flags =
  USE_ZIP :: bool
  NDEBUG :: bool
  CHUNKID_MAX :: nat

text \<open>\<^verbatim>\<open>assert(b)\<close>: nothing in a release build, a failure in a debug build when \<open>b\<close> is false.\<close>

definition assert_fails :: "build_flags \<Rightarrow> bool \<Rightarrow> bool" where
  "assert_fails flags b = (\<not> NDEBUG flags \<and> \<not> b)"

subsection \<open>Reading the mapping file\<close>

text \<open>
  An input stream is \<open>Some rest\<close> while it is good, with \<open>rest\<close> the characters not yet
  read, and \<open>None\<close> once \<^verbatim>\<open>eofbit\<close> or \<^verbatim>\<open>failbit\<close> is set. \<^verbatim>\<open>std::getline(is, str, delim)\<close>
  fails on a stream that is not good and when it extracts no character at all;
  otherwise it yields the characters before the first delimiter and discards the
  delimiter, or yields everything that is left and sets \<^verbatim>\<open>eofbit\<close>.
\<close>

type_synonym istream = "string option"

definition getline :: "char \<Rightarrow> istream \<Rightarrow> (string \<times> istream) option" where
  "getline delim is =
     (case is of
        None \<Rightarrow> None
      | Some s \<Rightarrow>
          if s = [] then None
          else if delim \<in> set s
            then Some (takeWhile (\<lambda>c. c \<noteq> delim) s, Some (tl (dropWhile (\<lambda>c. c \<noteq> delim) s)))
            else Some (s, None))"

text \<open>The lines \<^verbatim>\<open>std::getline(mapFile, line)\<close> yields, in order, until it fails.\<close>

function getlines :: "string \<Rightarrow> string list" where
  "getlines s =
     (if s = [] then []
      else if CHR 0x0A \<in> set s
        then takeWhile (\<lambda>c. c \<noteq> CHR 0x0A) s # getlines (tl (dropWhile (\<lambda>c. c \<noteq> CHR 0x0A) s))
        else [s])"
  by pat_completeness auto
termination
proof (relation "measure length")
  show "wf (measure length)" by simp
next
  fix s :: string
  assume "s \<noteq> []" and "CHR 0x0A \<in> set s"
  then have "dropWhile (\<lambda>c. c \<noteq> CHR 0x0A) s \<noteq> []" by simp
  then have "length (tl (dropWhile (\<lambda>c. c \<noteq> CHR 0x0A) s)) < length (dropWhile (\<lambda>c. c \<noteq> CHR 0x0A) s)"
    by (cases "dropWhile (\<lambda>c. c \<noteq> CHR 0x0A) s") simp_all
  also have "\<dots> \<le> length s" by (rule length_dropWhile_le)
  finally show "(tl (dropWhile (\<lambda>c. c \<noteq> CHR 0x0A) s), s) \<in> measure length" by simp
qed

declare getlines.simps [simp del]

text \<open>\<^verbatim>\<open>std::to_string\<close> of an unsigned value: its decimal digits.\<close>

definition digit_char :: "nat \<Rightarrow> char" where
  "digit_char d = ''0123456789'' ! d"

fun to_string :: "nat \<Rightarrow> string" where
  "to_string n = (if n < 10 then [digit_char n] else to_string (n div 10) @ [digit_char (n mod 10)])"

declare to_string.simps [simp del]

text \<open>
  \<^verbatim>\<open>strtoull(s, &eptr, 10)\<close> in the C locale: white space is skipped, one sign is
  accepted, then the longest run of decimal digits is converted. \<open>None\<close> stands for both
  outcomes the source rejects: no digit was converted (\<^verbatim>\<open>eptr\<close> is left at the start) or
  the value does not fit 64 bits (\<^verbatim>\<open>errno == ERANGE\<close>). Characters after the digits are
  ignored, and a value with a minus sign is negated modulo \<open>2^64\<close>, as the C standard
  says.
\<close>

definition isspace :: "char \<Rightarrow> bool" where
  "isspace c = (c \<in> set [CHR '' '', CHR 0x09, CHR 0x0A, CHR 0x0B, CHR 0x0C, CHR 0x0D])"

definition isdigit :: "char \<Rightarrow> bool" where
  "isdigit c = (c \<in> set ''0123456789'')"

definition digit_value :: "char \<Rightarrow> nat" where
  "digit_value c = of_char c - of_char (CHR ''0'')"

definition decimal_value :: "string \<Rightarrow> nat" where
  "decimal_value ds = foldl (\<lambda>acc c. 10 * acc + digit_value c) 0 ds"

definition ULLONG_MAX :: nat where
  "ULLONG_MAX = 2 ^ 64 - 1"

definition strtoull :: "string \<Rightarrow> nat option" where
  "strtoull s =
     (let s1 = dropWhile isspace s;
          negative = (s1 \<noteq> [] \<and> hd s1 = CHR ''-'');
          s2 = (if s1 \<noteq> [] \<and> (hd s1 = CHR ''-'' \<or> hd s1 = CHR ''+'') then tl s1 else s1);
          digits = takeWhile isdigit s2
      in if digits = [] then None
         else if ULLONG_MAX < decimal_value digits then None
         else if negative then Some ((2 ^ 64 - decimal_value digits) mod 2 ^ 64)
         else Some (decimal_value digits))"

subsection \<open>The corpus descriptor\<close>

text \<open>
  The corpus descriptor is a collaborator outside this file. The deserializer asks it
  whether a sequence key is included and for the number its string registry gives a key.
\<close>

record CorpusDescriptor =
  IsIncluded :: "string \<Rightarrow> bool"
  GetStringRegistry :: "string \<Rightarrow> nat"

subsection \<open>Sequence and chunk descriptions\<close>

record KeyType =
  m_sequence :: nat
  m_sample :: nat

text \<open>
  \<^verbatim>\<open>ImageSequenceDescription\<close> derives from \<^verbatim>\<open>SequenceDescription\<close>; assigning one to a
  \<^verbatim>\<open>SequenceDescription\<close> keeps the base part (\<open>SequenceDescription.truncate\<close>).
\<close>

record SequenceDescription =
  m_id :: nat
  m_numberOfSamples :: nat
  m_chunkId :: nat
  m_key :: KeyType

record ImageSequenceDescription = SequenceDescription +
  m_path :: string
  m_classId :: nat

record ImageChunkDescription =
  m_id :: nat
  m_numberOfSamples :: nat
  m_numberOfSequences :: nat
  m_startIndex :: nat

subsection \<open>Byte readers\<close>

text \<open>
  Modelled from the spec: the class \<^verbatim>\<open>ZipByteReader\<close> (ZipByteReader.cpp is not part of the
  sources at hand). The spec's container collaborator offers \<^verbatim>\<open>open(containerPath)\<close>,
  \<^verbatim>\<open>register(setOfItemPaths)\<close> and \<^verbatim>\<open>readItem(itemPath) -> bytes\<close>, and a read fails
  with NotFound when the entry does not exist. A reader object holds its container's
  path and the item paths registered with it, each with the id of the sequence that
  reads it.
\<close>

type_synonym bytes = "nat list"

record ZipByteReader =
  m_zipPath :: string
  m_registered :: "(string \<times> nat) list"

definition ZipByteReader_new :: "string \<Rightarrow> ZipByteReader" where
  "ZipByteReader_new containerPath = \<lparr>m_zipPath = containerPath, m_registered = []\<rparr>"

definition ZipByteReader_Register :: "(string \<times> nat) list \<Rightarrow> ZipByteReader \<Rightarrow> ZipByteReader" where
  "ZipByteReader_Register sequences r = r\<lparr>m_registered := sequences\<rparr>"

text \<open>
  Modelled from the spec: \<^verbatim>\<open>ZipByteReader::Read\<close>. \<open>containers\<close> is the storage: what
  each container path holds, entry by entry. The reader serves the entry whose item
  path was registered for the sequence id.
\<close>

definition ZipByteReader_Read ::
  "(string \<Rightarrow> (string \<rightharpoonup> bytes)) \<Rightarrow> ZipByteReader \<Rightarrow> nat \<Rightarrow> string \<Rightarrow> error + bytes" where
  "ZipByteReader_Read containers r seqId path =
     (case find (\<lambda>(itemPath, sid). sid = seqId) (m_registered r) of
        None \<Rightarrow> Inl (ZipEntryNotFound (m_zipPath r) path)
      | Some (itemPath, sid) \<Rightarrow>
          (case containers (m_zipPath r) itemPath of
             None \<Rightarrow> Inl (ZipEntryNotFound (m_zipPath r) itemPath)
           | Some b \<Rightarrow> Inr b))"

text \<open>
  \<^verbatim>\<open>FileByteReader::Read\<close> maps the file at \<open>path\<close> read-only. \<open>file_mapping\<close> is the
  file system as \<^verbatim>\<open>boost::interprocess\<close> sees it: \<open>None\<close> where constructing the mapping
  throws.
\<close>

definition FileByteReader_Read :: "(string \<rightharpoonup> bytes) \<Rightarrow> nat \<Rightarrow> string \<Rightarrow> error + bytes" where
  "FileByteReader_Read file_mapping seqId path =
     (case file_mapping path of None \<Rightarrow> Inl (FileMappingFailed path) | Some b \<Rightarrow> Inr b)"

subsection \<open>Element types and the label generator\<close>

text \<open>The enumerators of \<^verbatim>\<open>ElementType\<close> this file uses.\<close>

datatype ElementType = tfloat | tdouble | tuchar | tend

text \<open>
  A label of the sparse stream points into the generator's storage: \<^verbatim>\<open>m_data\<close> at the
  generator's \<^verbatim>\<open>m_value\<close>, \<^verbatim>\<open>m_indices\<close> at one element of the generator's index
  vector. An address is either null or one of these two places.
\<close>

datatype address = Null | AddressOfValue | AddressOfIndex nat

text \<open>
  \<^verbatim>\<open>TypedLabelGenerator<TElement>\<close>: \<open>TElement\<close> is the template argument (\<open>tfloat\<close>
  for \<^verbatim>\<open>float\<close>, \<open>tdouble\<close> for \<^verbatim>\<open>double\<close>), \<^verbatim>\<open>m_value\<close> is the number one in that
  type. The constructor fills \<^verbatim>\<open>m_indices\<close> with \<open>0, 1, ...\<close> (\<^verbatim>\<open>iota\<close>). The largest
  value of \<^verbatim>\<open>IndexType\<close>, a type declared outside this file, is a parameter.
\<close>

record LabelGenerator =
  TElement :: ElementType
  m_value :: int
  m_indices :: "nat list"

definition TypedLabelGenerator :: "nat \<Rightarrow> ElementType \<Rightarrow> nat \<Rightarrow> error + LabelGenerator" where
  "TypedLabelGenerator IndexType_max T labelDimension =
     (if IndexType_max < labelDimension
      then Inl (LabelDimensionExceedsMaximum labelDimension IndexType_max)
      else Inr \<lparr>TElement = T, m_value = 1, m_indices = [0..<labelDimension]\<rparr>)"

record SparseSequenceData =
  m_nnzCounts :: "nat list"
  m_totalNnzCount :: nat
  m_data :: address
  m_indices :: address
  m_chunk :: "nat option"
  m_numberOfSamples :: nat
  m_elementType :: ElementType

text \<open>A default-constructed \<^verbatim>\<open>SparseSequenceData\<close>, as \<^verbatim>\<open>make_shared\<close> leaves it.\<close>

definition SparseSequenceData_new :: SparseSequenceData where
  "SparseSequenceData_new =
     \<lparr>m_nnzCounts = [], m_totalNnzCount = 0, m_data = Null, m_indices = Null,
      m_chunk = None, m_numberOfSamples = 0, m_elementType = tend\<rparr>"

text \<open>\<^verbatim>\<open>resize(1)\<close> keeps the first element of a vector that has one and adds a zero otherwise.\<close>

definition resize1 :: "nat list \<Rightarrow> nat list" where
  "resize1 xs = (case xs of [] \<Rightarrow> [0] | x # _ \<Rightarrow> [x])"

definition CreateLabelFor :: "LabelGenerator \<Rightarrow> nat \<Rightarrow> SparseSequenceData \<Rightarrow> SparseSequenceData" where
  "CreateLabelFor g classId data =
     data\<lparr>m_nnzCounts := (resize1 (m_nnzCounts data))[0 := 1],
          m_totalNnzCount := 1,
          SparseSequenceData.m_data := AddressOfValue,
          SparseSequenceData.m_indices := AddressOfIndex classId\<rparr>"

text \<open>
  What a consumer of the sparse label reads through its two pointers:
  \<^verbatim>\<open>m_totalNnzCount\<close> indices starting at \<^verbatim>\<open>m_indices\<close> and as many values starting at
  \<^verbatim>\<open>m_data\<close>. A read outside the generator's storage has no value.
\<close>

definition read_indices :: "LabelGenerator \<Rightarrow> SparseSequenceData \<Rightarrow> nat list option" where
  "read_indices g data =
     (case SparseSequenceData.m_indices data of
        AddressOfIndex k \<Rightarrow>
          if k + m_totalNnzCount data \<le> length (LabelGenerator.m_indices g)
          then Some (take (m_totalNnzCount data) (drop k (LabelGenerator.m_indices g)))
          else None
      | _ \<Rightarrow> None)"

definition read_values :: "LabelGenerator \<Rightarrow> SparseSequenceData \<Rightarrow> int list option" where
  "read_values g data =
     (case SparseSequenceData.m_data data of
        AddressOfValue \<Rightarrow> if m_totalNnzCount data \<le> 1 then Some (replicate (m_totalNnzCount data) (m_value g)) else None
      | _ \<Rightarrow> None)"

text \<open>
  The vector a sparse label stands for: \<open>dimension\<close> entries, zero except at the stored
  indices, which carry the stored values.
\<close>

fun scatter :: "int list \<Rightarrow> (nat \<times> int) list \<Rightarrow> int list" where
  "scatter v [] = v"
| "scatter v ((i, x) # rest) = scatter (v[i := x]) rest"

definition dense_vector :: "nat \<Rightarrow> LabelGenerator \<Rightarrow> SparseSequenceData \<Rightarrow> int list option" where
  "dense_vector dimension g data =
     (case (read_indices g data, read_values g data) of
        (Some is, Some vs) \<Rightarrow>
          if (\<forall>i \<in> set is. i < dimension) then Some (scatter (replicate dimension 0) (zip is vs)) else None
      | _ \<Rightarrow> None)"

subsection \<open>The deserializer\<close>

text \<open>
  The members of \<^verbatim>\<open>ImageDataDeserializer\<close> this file reads or writes. The \<^verbatim>\<open>std::map\<close>
  members are association lists (\<open>map_of\<close> looks a key up, \<open>AList.update\<close> is
  \<^verbatim>\<open>m[k] = v\<close>). A \<^verbatim>\<open>shared_ptr<ByteReader>\<close> is the index of the reader object in
  \<open>byteReaders\<close>, the store of the reader objects created so far, so that two sequences
  of one container hold the same reader.
\<close>

datatype StorageType = dense | sparse_csc

text \<open>
  \<^verbatim>\<open>TensorShape\<close> and \<^verbatim>\<open>ImageDimensions\<close> are declared outside this file. A shape is
  kept as the expression that makes it: \<^verbatim>\<open>TensorShape(n)\<close>, the shape a configuration
  helper supplied, or \<^verbatim>\<open>ImageDimensions(...).AsTensorShape(HWC)\<close> of three numbers or of
  another shape read in a data format.
\<close>

datatype ImageLayoutKind = HWC | CHW

datatype TensorShape =
    TensorShape nat
  | Dims "nat list"
  | AsTensorShapeHWC nat nat nat
  | AsTensorShapeHWC_of TensorShape ImageLayoutKind

record StreamDescription =
  m_id :: nat
  m_name :: string
  m_storageType :: StorageType
  m_elementType :: ElementType
  m_sampleLayout :: "TensorShape option"

type_synonym PathReaderMap = "(string \<times> nat) list"
type_synonym ReaderSequenceMap = "(string \<times> (string \<times> nat) list) list"

record ImageDataDeserializer =
  m_streams :: "StreamDescription list"
  m_chunks :: "ImageChunkDescription list"
  m_imageSequences :: "ImageSequenceDescription list"
  m_keyToSequence :: "(nat \<times> nat) list"
  m_readers :: "(nat \<times> nat) list"
  byteReaders :: "ZipByteReader list"
  m_labelGenerator :: LabelGenerator
  m_featureElementType :: ElementType
  m_labelElementType :: ElementType
  m_grayscale :: bool

text \<open>\<^verbatim>\<open>m[k]\<close> read on a \<^verbatim>\<open>std::map\<close> of maps: the empty map when the key is new.\<close>

definition sequences_of :: "ReaderSequenceMap \<Rightarrow> string \<Rightarrow> (string \<times> nat) list" where
  "sequences_of readerSequences containerPath =
     (case map_of readerSequences containerPath of None \<Rightarrow> [] | Some m \<Rightarrow> m)"

definition RegisterByteReader ::
  "build_flags \<Rightarrow> nat \<Rightarrow> string \<Rightarrow> ImageDataDeserializer \<times> PathReaderMap \<times> ReaderSequenceMap
    \<Rightarrow> error + ImageDataDeserializer \<times> PathReaderMap \<times> ReaderSequenceMap" where
  "RegisterByteReader flags seqId path s =
     (case s of (this, knownReaders, readerSequences) \<Rightarrow>
        if assert_fails flags (path \<noteq> []) then Inl AssertionFailed
        else if CHR ''@'' \<notin> set path then Inr s
        else if \<not> USE_ZIP flags then Inl BuiltWithoutZipSupport
        else
          let atPos = length (takeWhile (\<lambda>c. c \<noteq> CHR ''@'') path) in
          if assert_fails flags (0 < atPos) then Inl AssertionFailed
          else if assert_fails flags (atPos + 1 < length path) then Inl AssertionFailed
          else if length path < atPos + 2 then Inl SubstrOutOfRange
          else
            let containerPath = take atPos path;
                itemPath = map (\<lambda>c. if c = CHR 0x5C then CHR ''/'' else c) (drop (atPos + 2) path);
                (reader, this1, knownReaders1, readerSequences1) =
                  (case map_of knownReaders containerPath of
                     None \<Rightarrow>
                       (length (byteReaders this),
                        this\<lparr>byteReaders := byteReaders this @ [ZipByteReader_new containerPath]\<rparr>,
                        AList.update containerPath (length (byteReaders this)) knownReaders,
                        AList.update containerPath [] readerSequences)
                   | Some r \<Rightarrow> (r, this, knownReaders, readerSequences))
            in Inr (this1\<lparr>m_readers := AList.update seqId reader (m_readers this1)\<rparr>,
                    knownReaders1,
                    AList.update containerPath
                      (AList.update itemPath seqId (sequences_of readerSequences1 containerPath))
                      readerSequences1))"

text \<open>The state of \<^verbatim>\<open>CreateSequenceDescriptions\<close>: the object and the locals its loop changes.\<close>

record locals =
  this :: ImageDataDeserializer
  curId :: nat
  currentChunkId :: nat
  currentChunk :: ImageChunkDescription
  knownReaders :: PathReaderMap
  readerSequences :: ReaderSequenceMap

text \<open>
  One line of the mapping file as the loop reads it: the three \<^verbatim>\<open>getline\<close> calls, joined
  by \<^verbatim>\<open>||\<close> (a later call is not made once one has failed, and its string stays empty),
  and the fallback to the two-column format. The result is
  \<open>(sequenceKey, imagePath, classId)\<close>.
\<close>

definition old_format :: "nat \<Rightarrow> string \<Rightarrow> string \<Rightarrow> error + string \<times> string \<times> string" where
  "old_format lineIndex sequenceKey imagePath =
     (let classId = imagePath;
          imagePath = sequenceKey;
          sequenceKey = to_string lineIndex
      in if classId = [] \<or> imagePath = [] then Inl (InvalidMapFileFormat lineIndex)
         else Inr (sequenceKey, imagePath, classId))"

definition read_columns :: "nat \<Rightarrow> string \<Rightarrow> error + string \<times> string \<times> string" where
  "read_columns lineIndex line =
     (case getline (CHR 0x09) (Some line) of
        None \<Rightarrow> old_format lineIndex [] []
      | Some (sequenceKey, ss1) \<Rightarrow>
          (case getline (CHR 0x09) ss1 of
             None \<Rightarrow> old_format lineIndex sequenceKey []
           | Some (imagePath, ss2) \<Rightarrow>
               (case getline (CHR 0x09) ss2 of
                  None \<Rightarrow> old_format lineIndex sequenceKey imagePath
                | Some (classId, ss3) \<Rightarrow> Inr (sequenceKey, imagePath, classId))))"

text \<open>One round of the inner \<^verbatim>\<open>for\<close> loop, up to and including \<^verbatim>\<open>curId++\<close>.\<close>

definition add_sequence ::
  "build_flags \<Rightarrow> CorpusDescriptor \<Rightarrow> string \<Rightarrow> string \<Rightarrow> nat \<Rightarrow> locals \<Rightarrow> error + locals" where
  "add_sequence flags corpus sequenceKey imagePath cid st =
     (let description =
            \<lparr>SequenceDescription.m_id = curId st,
             m_numberOfSamples = 1,
             m_chunkId = currentChunkId st,
             m_key = \<lparr>m_sequence = GetStringRegistry corpus sequenceKey, m_sample = 0\<rparr>,
             m_path = imagePath,
             m_classId = cid\<rparr>;
          this1 = (this st)
            \<lparr>m_keyToSequence :=
               AList.update (m_sequence (m_key description)) (length (m_imageSequences (this st)))
                 (m_keyToSequence (this st)),
             m_imageSequences := m_imageSequences (this st) @ [description]\<rparr>;
          chunk1 = (currentChunk st)
            \<lparr>ImageChunkDescription.m_numberOfSamples :=
               ImageChunkDescription.m_numberOfSamples (currentChunk st) + 1,
             m_numberOfSequences := m_numberOfSequences (currentChunk st) + 1\<rparr>
      in case RegisterByteReader flags (SequenceDescription.m_id description) (m_path description)
                (this1, knownReaders st, readerSequences st) of
           Inl e \<Rightarrow> Inl e
         | Inr (this2, knownReaders2, readerSequences2) \<Rightarrow>
             Inr (st\<lparr>this := this2, currentChunk := chunk1, knownReaders := knownReaders2,
                     readerSequences := readerSequences2, curId := curId st + 1\<rparr>))"

text \<open>The inner loop: \<open>n\<close> rounds are left.\<close>

fun add_sequences ::
  "build_flags \<Rightarrow> CorpusDescriptor \<Rightarrow> string \<Rightarrow> string \<Rightarrow> nat \<Rightarrow> nat \<Rightarrow> locals \<Rightarrow> error + locals" where
  "add_sequences flags corpus sequenceKey imagePath cid 0 st = Inr st"
| "add_sequences flags corpus sequenceKey imagePath cid (Suc n) st =
     (case add_sequence flags corpus sequenceKey imagePath cid st of
        Inl e \<Rightarrow> Inl e
      | Inr st1 \<Rightarrow> add_sequences flags corpus sequenceKey imagePath cid n st1)"

text \<open>"Creating new chunk if necessary."\<close>

definition new_chunk_if_necessary :: "locals \<Rightarrow> locals" where
  "new_chunk_if_necessary st =
     (if 511 < ImageChunkDescription.m_numberOfSamples (currentChunk st)
      then st\<lparr>this := (this st)\<lparr>m_chunks := m_chunks (this st) @ [currentChunk st]\<rparr>,
              currentChunkId := currentChunkId st + 1,
              currentChunk :=
                \<lparr>ImageChunkDescription.m_id = currentChunkId st + 1,
                 m_numberOfSamples = 0,
                 m_numberOfSequences = 0,
                 m_startIndex = length (m_imageSequences (this st))\<rparr>\<rparr>
      else st)"

text \<open>The body of the outer loop for the line \<open>line\<close>, the \<open>lineIndex\<close>-th of the file.\<close>

definition process_line ::
  "build_flags \<Rightarrow> CorpusDescriptor \<Rightarrow> nat \<Rightarrow> nat \<Rightarrow> nat \<Rightarrow> string \<Rightarrow> locals \<Rightarrow> error + locals" where
  "process_line flags corpus labelDimension itemsPerLine lineIndex line st =
     (case read_columns lineIndex line of
        Inl e \<Rightarrow> Inl e
      | Inr (sequenceKey, imagePath, classId) \<Rightarrow>
          if \<not> IsIncluded corpus sequenceKey then Inr st
          else
            (case strtoull classId of
               None \<Rightarrow> Inl (CannotParseLabelValue lineIndex)
             | Some cid \<Rightarrow>
                 if labelDimension \<le> cid then Inl (InvalidClassId imagePath cid labelDimension lineIndex)
                 else if CHUNKID_MAX flags < curId st + itemsPerLine then Inl MaximumNumberOfChunksExceeded
                 else add_sequences flags corpus sequenceKey imagePath cid itemsPerLine
                        (new_chunk_if_necessary st)))"

text \<open>The outer loop over the lines still to be read; \<open>lineIndex\<close> is the index of the next one.\<close>

fun process_lines ::
  "build_flags \<Rightarrow> CorpusDescriptor \<Rightarrow> nat \<Rightarrow> nat \<Rightarrow> nat \<Rightarrow> string list \<Rightarrow> locals \<Rightarrow> error + locals" where
  "process_lines flags corpus labelDimension itemsPerLine lineIndex [] st = Inr st"
| "process_lines flags corpus labelDimension itemsPerLine lineIndex (line # rest) st =
     (case process_line flags corpus labelDimension itemsPerLine lineIndex line st of
        Inl e \<Rightarrow> Inl e
      | Inr st1 \<Rightarrow> process_lines flags corpus labelDimension itemsPerLine (lineIndex + 1) rest st1)"

text \<open>"Adding the last chunk."\<close>

definition add_last_chunk :: "locals \<Rightarrow> locals" where
  "add_last_chunk st =
     (if 0 < ImageChunkDescription.m_numberOfSamples (currentChunk st)
      then st\<lparr>this := (this st)\<lparr>m_chunks := m_chunks (this st) @ [currentChunk st]\<rparr>\<rparr>
      else st)"

text \<open>The last loop: every known reader is told the items registered for its container.\<close>

fun register_readers :: "ReaderSequenceMap \<Rightarrow> PathReaderMap \<Rightarrow> ZipByteReader list \<Rightarrow> ZipByteReader list" where
  "register_readers sequences [] heap = heap"
| "register_readers sequences ((containerPath, reader) # rest) heap =
     register_readers sequences rest
       (heap[reader := ZipByteReader_Register (sequences_of sequences containerPath) (heap ! reader)])"

definition initial_locals :: "ImageDataDeserializer \<Rightarrow> locals" where
  "initial_locals d =
     \<lparr>this = d,
      curId = 0,
      currentChunkId = 0,
      currentChunk = \<lparr>ImageChunkDescription.m_id = 0, m_numberOfSamples = 0,
                      m_numberOfSequences = 0, m_startIndex = 0\<rparr>,
      knownReaders = [],
      readerSequences = []\<rparr>"

text \<open>
  \<open>mapFile\<close> is what opening \<open>mapPath\<close> gives: \<open>None\<close> when the file cannot be opened,
  its contents otherwise. The function returns the object as the call leaves it.
\<close>

definition CreateSequenceDescriptions ::
  "build_flags \<Rightarrow> CorpusDescriptor \<Rightarrow> string option \<Rightarrow> nat \<Rightarrow> bool \<Rightarrow> ImageDataDeserializer
    \<Rightarrow> error + ImageDataDeserializer" where
  "CreateSequenceDescriptions flags corpus mapFile labelDimension isMultiCrop d =
     (case mapFile of
        None \<Rightarrow> Inl CouldNotOpenForReading
      | Some content \<Rightarrow>
          let itemsPerLine = (if isMultiCrop then 10 else 1) in
          (case process_lines flags corpus labelDimension itemsPerLine 0 (getlines content)
                  (initial_locals d) of
             Inl e \<Rightarrow> Inl e
           | Inr st \<Rightarrow>
               let st1 = add_last_chunk st in
               Inr ((this st1)
                 \<lparr>byteReaders :=
                    register_readers (readerSequences st1) (knownReaders st1) (byteReaders (this st1))\<rparr>)))"

subsection \<open>Key-based lookup\<close>

text \<open>
  The result is the returned \<^verbatim>\<open>bool\<close> and the out-parameter \<open>result\<close> as the call leaves
  it. \<^verbatim>\<open>m_imageSequences[index->second]\<close> with an index outside the vector is undefined.
\<close>

definition GetSequenceDescriptionByKey ::
  "ImageDataDeserializer \<Rightarrow> KeyType \<Rightarrow> SequenceDescription \<Rightarrow> error + bool \<times> SequenceDescription" where
  "GetSequenceDescriptionByKey d key result =
     (let index = map_of (m_keyToSequence d) (m_sequence key) in
      if m_sample key \<noteq> 0 \<or> index = None then Inr (False, result)
      else
        (case index of
           None \<Rightarrow> Inr (False, result)
         | Some i \<Rightarrow>
             if length (m_imageSequences d) \<le> i then Inl IndexOutOfRange
             else Inr (True, SequenceDescription.truncate (m_imageSequences d ! i))))"

text \<open>"Descriptions of chunks exposed by the image reader."\<close>

definition GetChunkDescriptions :: "ImageDataDeserializer \<Rightarrow> ImageChunkDescription list" where
  "GetChunkDescriptions d = foldl (\<lambda>result c. result @ [c]) [] (m_chunks d)"

subsection \<open>OpenCV and the environment\<close>

text \<open>
  A \<^verbatim>\<open>cv::Mat\<close>: its type word, its size, whether its rows are stored without gaps, and
  its pixel bytes row by row (\<open>None\<close> for the null \<^verbatim>\<open>data\<close> pointer of an empty matrix).
  The constants are OpenCV's.
\<close>

record Mat =
  mat_type :: nat
  rows :: nat
  cols :: nat
  isContinuous :: bool
  data :: "bytes option"




text \<open>
  What lies outside the program: the file system as \<^verbatim>\<open>boost::interprocess\<close> maps it,
  the contents of the containers, and OpenCV's \<^verbatim>\<open>imdecode\<close> (of a buffer and a read
  flag) and \<^verbatim>\<open>convertTo\<close> (of a matrix and a result type).
\<close>

record environment =
  file_mapping :: "string \<rightharpoonup> bytes"
  containers :: "string \<Rightarrow> (string \<rightharpoonup> bytes)"
  imdecode :: "bytes \<Rightarrow> nat \<Rightarrow> Mat"
  convertTo :: "Mat \<Rightarrow> nat \<Rightarrow> Mat"

subsection \<open>Reading the bytes of a sequence\<close>

definition ReadImage ::
  "build_flags \<Rightarrow> environment \<Rightarrow> ImageDataDeserializer \<Rightarrow> nat \<Rightarrow> string \<Rightarrow> error + bytes" where
  "ReadImage flags env d seqId path =
     (if assert_fails flags (path \<noteq> []) then Inl AssertionFailed
      else
        (case (if m_readers d = [] then None else map_of (m_readers d) seqId) of
           None \<Rightarrow> FileByteReader_Read (file_mapping env) seqId path
         | Some r \<Rightarrow>
             if length (byteReaders d) \<le> r then Inl NullPointer
             else ZipByteReader_Read (containers env) (byteReaders d ! r) seqId path))"

subsection \<open>Chunks\<close>

text \<open>
  An \<^verbatim>\<open>ImageChunk\<close> holds its id and the buffers read for its sequences; \<^verbatim>\<open>m_parent\<close> is
  the deserializer, which the functions below take as an argument.
\<close>

record ImageChunk =
  m_id :: nat
  m_data :: "bytes list"

text \<open>
  The loop of the constructor: \<open>is\<close> are the values of \<^verbatim>\<open>i\<close> still to come, \<open>m_data\<close>
  the buffers read so far.
\<close>

fun read_chunk_images ::
  "build_flags \<Rightarrow> environment \<Rightarrow> ImageDataDeserializer \<Rightarrow> ImageChunkDescription \<Rightarrow> nat list
    \<Rightarrow> bytes list \<Rightarrow> error + bytes list" where
  "read_chunk_images flags env m_parent chunk [] buffers = Inr buffers"
| "read_chunk_images flags env m_parent chunk (i # is) buffers =
     (let currentImage = m_startIndex chunk + i in
      if length (m_imageSequences m_parent) \<le> currentImage then Inl IndexOutOfRange
      else
        let imageSequence = m_imageSequences m_parent ! currentImage in
        (case ReadImage flags env m_parent (SequenceDescription.m_id imageSequence) (m_path imageSequence) of
           Inl e \<Rightarrow> Inl e
         | Inr read \<Rightarrow> read_chunk_images flags env m_parent chunk is (buffers @ [read])))"

definition ImageChunk_new ::
  "build_flags \<Rightarrow> environment \<Rightarrow> ImageDataDeserializer \<Rightarrow> nat \<Rightarrow> error + ImageChunk" where
  "ImageChunk_new flags env m_parent chunkId =
     (if length (m_chunks m_parent) \<le> chunkId then Inl IndexOutOfRange
      else
        let chunk = m_chunks m_parent ! chunkId in
        (case read_chunk_images flags env m_parent chunk
                [0..<ImageChunkDescription.m_numberOfSamples chunk] [] of
           Inl e \<Rightarrow> Inl e
         | Inr buffers \<Rightarrow> Inr \<lparr>ImageChunk.m_id = chunkId, m_data = buffers\<rparr>))"

text \<open>
  Chunk objects live in a store: an address is an index into it, and an object carries
  the number of \<^verbatim>\<open>shared_ptr\<close>s that own it. \<^verbatim>\<open>make_shared\<close> adds an object owned once,
  \<^verbatim>\<open>shared_from_this\<close> adds an owner, the destructor of a \<^verbatim>\<open>shared_ptr\<close> (\<open>release\<close>)
  takes one away and destroys the object with the last one.
\<close>

record shared_chunk =
  object :: ImageChunk
  use_count :: nat

type_synonym heap = "shared_chunk option list"


definition make_shared :: "heap \<Rightarrow> ImageChunk \<Rightarrow> heap \<times> nat" where
  "make_shared h c = (h @ [Some \<lparr>object = c, use_count = 1\<rparr>], length h)"

definition shared_from_this :: "heap \<Rightarrow> nat \<Rightarrow> error + heap" where
  "shared_from_this h self =
     (if length h \<le> self then Inl BadWeakPtr
      else
        (case h ! self of
           None \<Rightarrow> Inl BadWeakPtr
         | Some sc \<Rightarrow>
             if use_count sc = 0 then Inl BadWeakPtr
             else Inr (h[self := Some (sc\<lparr>use_count := use_count sc + 1\<rparr>)])))"


definition GetChunk ::
  "build_flags \<Rightarrow> environment \<Rightarrow> ImageDataDeserializer \<Rightarrow> heap \<Rightarrow> nat \<Rightarrow> error + heap \<times> nat" where
  "GetChunk flags env d h chunkId =
     (if length (m_chunks d) \<le> chunkId then Inl IndexOutOfRange
      else
        (case ImageChunk_new flags env d chunkId of
           Inl e \<Rightarrow> Inl e
         | Inr c \<Rightarrow> Inr (make_shared h c)))"

subsection \<open>Decoding a sequence\<close>

record DeserializedImage =
  m_id :: nat
  m_numberOfSamples :: nat
  m_chunk :: "nat option"
  m_elementType :: ElementType
  m_sampleLayout :: TensorShape
  m_data :: "bytes option"
  m_image :: Mat
  m_buffer :: bytes




subsection \<open>The constructors\<close>

text \<open>
  What the compositional constructor reads from its configuration: the names of the
  sections with a \<^verbatim>\<open>transforms\<close> and with a \<^verbatim>\<open>labelDim\<close> parameter, and the values of
  \<^verbatim>\<open>precision\<close>, \<^verbatim>\<open>labelDim\<close>, \<^verbatim>\<open>grayscale\<close>, \<^verbatim>\<open>multiViewCrop\<close> and, as \<open>mapFile\<close>,
  the stream that the path \<^verbatim>\<open>file\<close> opens to.
\<close>

record ConfigParameters =
  featureNames :: "string list"
  labelNames :: "string list"
  precision :: string
  labelDim :: nat
  grayscale :: bool
  multiViewCrop :: bool
  mapFile :: "string option"

text \<open>\<^verbatim>\<open>AreEqualIgnoreCase\<close> of StringUtil.h, on ASCII letters.\<close>

definition to_lower :: "char \<Rightarrow> char" where
  "to_lower c =
     (case map_of (zip ''ABCDEFGHIJKLMNOPQRSTUVWXYZ'' ''abcdefghijklmnopqrstuvwxyz'') c of
        None \<Rightarrow> c | Some l \<Rightarrow> l)"

definition AreEqualIgnoreCase :: "string \<Rightarrow> string \<Rightarrow> bool" where
  "AreEqualIgnoreCase a b = (map to_lower a = map to_lower b)"

definition ImageDataDeserializer_new ::
  "build_flags \<Rightarrow> nat \<Rightarrow> CorpusDescriptor \<Rightarrow> ConfigParameters \<Rightarrow> error + ImageDataDeserializer" where
  "ImageDataDeserializer_new flags IndexType_max corpus config =
     (if length (featureNames config) \<noteq> 1 \<or> length (labelNames config) \<noteq> 1
      then Inl (SingleFeatureAndLabelStream (length (featureNames config)) (length (labelNames config)))
      else
        let features =
              \<lparr>StreamDescription.m_id = 0,
               m_name = featureNames config ! 0,
               m_storageType = dense,
               StreamDescription.m_elementType = tend,
               StreamDescription.m_sampleLayout = None\<rparr>;
            featureElementType = StreamDescription.m_elementType features;
            labelDimension = labelDim config;
            labels =
              \<lparr>StreamDescription.m_id = 1,
               m_name = labelNames config ! 0,
               m_storageType = sparse_csc,
               StreamDescription.m_elementType =
                 (if AreEqualIgnoreCase (precision config) ''float'' then tfloat else tdouble),
               StreamDescription.m_sampleLayout = Some (TensorShape labelDimension)\<rparr>
        in
        (case TypedLabelGenerator IndexType_max (StreamDescription.m_elementType labels) labelDimension of
           Inl e \<Rightarrow> Inl e
         | Inr generator \<Rightarrow>
             CreateSequenceDescriptions flags corpus (mapFile config) labelDimension (multiViewCrop config)
               \<lparr>m_streams = [features, labels],
                m_chunks = [],
                m_imageSequences = [],
                m_keyToSequence = [],
                m_readers = [],
                byteReaders = [],
                m_labelGenerator = generator,
                m_featureElementType = featureElementType,
                m_labelElementType = StreamDescription.m_elementType labels,
                m_grayscale = grayscale config\<rparr>))"

text \<open>
  What the legacy constructor asks its \<^verbatim>\<open>ImageConfigHelper\<close>. The constructor does not
  assign \<^verbatim>\<open>m_labelElementType\<close>; \<open>unassigned\<close> is the value the member has then.
  \<open>default_corpus\<close> is the corpus descriptor \<^verbatim>\<open>make_shared<CorpusDescriptor>()\<close> makes.
\<close>

record ImageConfigHelper =
  GetStreams :: "StreamDescription list"
  UseGrayscale :: bool
  GetLabelStreamId :: nat
  GetFeatureStreamId :: nat
  GetDataFormat :: ImageLayoutKind
  GetMapPath :: "string option"
  IsMultiViewCrop :: bool

definition GetDim0 :: "TensorShape \<Rightarrow> nat option" where
  "GetDim0 shape =
     (case shape of
        TensorShape n \<Rightarrow> Some n
      | Dims ds \<Rightarrow> (case ds of [] \<Rightarrow> None | x # _ \<Rightarrow> Some x)
      | _ \<Rightarrow> None)"

definition ImageDataDeserializer_legacy ::
  "build_flags \<Rightarrow> nat \<Rightarrow> ElementType \<Rightarrow> CorpusDescriptor \<Rightarrow> ImageConfigHelper
    \<Rightarrow> error + ImageDataDeserializer" where
  "ImageDataDeserializer_legacy flags IndexType_max unassigned default_corpus configHelper =
     (let streams = GetStreams configHelper;
          l = GetLabelStreamId configHelper;
          f = GetFeatureStreamId configHelper
      in
      if assert_fails flags (length streams = 2) then Inl AssertionFailed
      else if length streams \<le> l \<or> length streams \<le> f then Inl IndexOutOfRange
      else
        (case StreamDescription.m_sampleLayout (streams ! f) of
           None \<Rightarrow> Inl NullPointer
         | Some layout \<Rightarrow>
             let streams1 = streams[f := (streams ! f)
                   \<lparr>StreamDescription.m_sampleLayout :=
                      Some (AsTensorShapeHWC_of layout (GetDataFormat configHelper))\<rparr>];
                 streams2 = streams1[l := (streams1 ! l)\<lparr>m_storageType := sparse_csc\<rparr>];
                 streams3 = streams2[f := (streams2 ! f)\<lparr>m_storageType := dense\<rparr>];
                 featureElementType = StreamDescription.m_elementType (streams3 ! f);
                 streams4 = streams3[f := (streams3 ! f)\<lparr>StreamDescription.m_elementType := tend\<rparr>]
             in
             (case StreamDescription.m_sampleLayout (streams4 ! l) of
                None \<Rightarrow> Inl NullPointer
              | Some labelLayout \<Rightarrow>
                  (case GetDim0 labelLayout of
                     None \<Rightarrow> Inl IndexOutOfRange
                   | Some labelDimension \<Rightarrow>
                       let labelType = StreamDescription.m_elementType (streams4 ! l) in
                       if labelType \<noteq> tfloat \<and> labelType \<noteq> tdouble then Inl UnsupportedLabelElementType
                       else
                         (case TypedLabelGenerator IndexType_max labelType labelDimension of
                            Inl e \<Rightarrow> Inl e
                          | Inr generator \<Rightarrow>
                              CreateSequenceDescriptions flags default_corpus
                                (GetMapPath configHelper) labelDimension (IsMultiViewCrop configHelper)
                                \<lparr>m_streams = streams4,
                                 m_chunks = [],
                                 m_imageSequences = [],
                                 m_keyToSequence = [],
                                 m_readers = [],
                                 byteReaders = [],
                                 m_labelGenerator = generator,
                                 m_featureElementType = featureElementType,
                                 m_labelElementType = unassigned,
                                 m_grayscale = UseGrayscale configHelper\<rparr>)))))"

section \<open>Notions the statements use\<close>

text \<open>
  \<open>tiles a chunks b\<close>: the chunk descriptions, in order, cut the index range from \<open>a\<close>
  up to but excluding \<open>b\<close> into consecutive pieces: each chunk starts where the one
  before it ends, the first at \<open>a\<close>, and the last ends at \<open>b\<close>.
\<close>

fun tiles :: "nat \<Rightarrow> ImageChunkDescription list \<Rightarrow> nat \<Rightarrow> bool" where
  "tiles a [] b = (a = b)"
| "tiles a (c # cs) b = (m_startIndex c = a \<and> tiles (a + m_numberOfSequences c) cs b)"

text \<open>
  \<open>in_chunk chunks i s\<close>: the sequence \<open>s\<close> at position \<open>i\<close> of the sequence table has
  id \<open>i\<close>, and its chunk id names a chunk whose range holds \<open>i\<close>.
\<close>

definition in_chunk :: "ImageChunkDescription list \<Rightarrow> nat \<Rightarrow> ImageSequenceDescription \<Rightarrow> bool" where
  "in_chunk chunks i s =
     (SequenceDescription.m_id s = i \<and>
      m_chunkId s < length chunks \<and>
      m_startIndex (chunks ! m_chunkId s) \<le> i \<and>
      i < m_startIndex (chunks ! m_chunkId s) + m_numberOfSequences (chunks ! m_chunkId s))"

text \<open>
  \<open>closed_chunk itemsPerLine k c\<close>: what holds of the \<open>k\<close>-th chunk once the loop has
  pushed it because its sample count exceeded 511.
\<close>

definition closed_chunk :: "nat \<Rightarrow> nat \<Rightarrow> ImageChunkDescription \<Rightarrow> bool" where
  "closed_chunk itemsPerLine k c =
     (ImageChunkDescription.m_id c = k \<and>
      ImageChunkDescription.m_numberOfSamples c = m_numberOfSequences c \<and>
      511 < ImageChunkDescription.m_numberOfSamples c \<and>
      ImageChunkDescription.m_numberOfSamples c < 512 + itemsPerLine)"

text \<open>The invariant of the loops; \<open>B\<close> bounds the sample count of the chunk being filled.\<close>

definition layout_inv :: "nat \<Rightarrow> nat \<Rightarrow> locals \<Rightarrow> bool" where
  "layout_inv itemsPerLine B st =
     (curId st = length (m_imageSequences (this st)) \<and>
      currentChunkId st = length (m_chunks (this st)) \<and>
      ImageChunkDescription.m_id (currentChunk st) = length (m_chunks (this st)) \<and>
      ImageChunkDescription.m_numberOfSamples (currentChunk st) = m_numberOfSequences (currentChunk st) \<and>
      ImageChunkDescription.m_numberOfSamples (currentChunk st) \<le> B \<and>
      tiles 0 (m_chunks (this st) @ [currentChunk st]) (length (m_imageSequences (this st))) \<and>
      (\<forall>k<length (m_chunks (this st)). closed_chunk itemsPerLine k (m_chunks (this st) ! k)) \<and>
      (\<forall>i<length (m_imageSequences (this st)).
         in_chunk (m_chunks (this st) @ [currentChunk st]) i (m_imageSequences (this st) ! i)))"

text \<open>
  The lines of a mapping file the loop accepts, counted from line \<open>lineIndex\<close> on: those
  that have their columns and whose sequence key the corpus includes.
\<close>

definition accepted :: "CorpusDescriptor \<Rightarrow> nat \<Rightarrow> string \<Rightarrow> bool" where
  "accepted corpus lineIndex line =
     (case read_columns lineIndex line of
        Inl e \<Rightarrow> False
      | Inr (sequenceKey, imagePath, classId) \<Rightarrow> IsIncluded corpus sequenceKey)"

fun accepted_lines :: "CorpusDescriptor \<Rightarrow> nat \<Rightarrow> string list \<Rightarrow> nat" where
  "accepted_lines corpus lineIndex [] = 0"
| "accepted_lines corpus lineIndex (line # rest) =
     (if accepted corpus lineIndex line then 1 else 0) + accepted_lines corpus (lineIndex + 1) rest"

text \<open>
  \<open>from_line corpus lines s\<close>: the sequence \<open>s\<close> was made from one of the lines: the line
  has its columns, its key is included, its second column is the path of \<open>s\<close>, the class
  id of \<open>s\<close> is the value \<^verbatim>\<open>strtoull\<close> gives the class-id column, and the key of \<open>s\<close> is
  the number the registry gives the line's key.
\<close>

definition from_line :: "CorpusDescriptor \<Rightarrow> string list \<Rightarrow> ImageSequenceDescription \<Rightarrow> bool" where
  "from_line corpus lines s =
     (\<exists>i key cls. i < length lines \<and> read_columns i (lines ! i) = Inr (key, m_path s, cls) \<and>
        IsIncluded corpus key \<and> strtoull cls = Some (m_classId s) \<and>
        m_key s = \<lparr>m_sequence = GetStringRegistry corpus key, m_sample = 0\<rparr>)"

text \<open>The invariant of the key map: every entry points at a sequence that carries the key.\<close>

definition keys_inv :: "locals \<Rightarrow> bool" where
  "keys_inv st =
     (\<forall>k i. map_of (m_keyToSequence (this st)) k = Some i \<longrightarrow>
        i < length (m_imageSequences (this st)) \<and>
        m_key (m_imageSequences (this st) ! i) = \<lparr>m_sequence = k, m_sample = 0\<rparr>)"

text \<open>A run of sequences that differ at most in their ids.\<close>

definition uniform_block :: "ImageSequenceDescription list \<Rightarrow> bool" where
  "uniform_block b =
     (\<forall>s\<in>set b. \<forall>s'\<in>set b. m_chunkId s = m_chunkId s' \<and> m_path s = m_path s' \<and>
        m_classId s = m_classId s' \<and> m_key s = m_key s')"


text \<open>
  The invariant of the reader table: ids are positions, a debug build has stored no empty
  path, every sequence with a reader has a path with an \<^verbatim>\<open>@\<close>, and a build without
  container support has stored no such path.
\<close>

definition readers_inv :: "build_flags \<Rightarrow> locals \<Rightarrow> bool" where
  "readers_inv flags st =
     (curId st = length (m_imageSequences (this st)) \<and>
      (NDEBUG flags \<or> (\<forall>s\<in>set (m_imageSequences (this st)). m_path s \<noteq> [])) \<and>
      (\<forall>i r. map_of (m_readers (this st)) i = Some r \<longrightarrow>
         i < length (m_imageSequences (this st)) \<and> CHR ''@'' \<in> set (m_path (m_imageSequences (this st) ! i))) \<and>
      (\<not> USE_ZIP flags \<longrightarrow> (\<forall>s\<in>set (m_imageSequences (this st)). CHR ''@'' \<notin> set (m_path s))))"










text \<open>An object on which \<^verbatim>\<open>CreateSequenceDescriptions\<close> has not run: its tables are empty.\<close>

definition fresh :: "ImageDataDeserializer \<Rightarrow> bool" where
  "fresh d =
     (m_chunks d = [] \<and> m_imageSequences d = [] \<and> m_keyToSequence d = [] \<and>
      m_readers d = [] \<and> byteReaders d = [])"

section \<open>Example inputs\<close>

text \<open>
  A build without container support, a corpus that includes every key, an object whose
  tables are still empty, and the line \<^verbatim>\<open>img1.png<TAB>3\<close> of the two-column format.
\<close>

definition example_flags :: build_flags where
  "example_flags = \<lparr>USE_ZIP = False, NDEBUG = False, CHUNKID_MAX = 4294967295\<rparr>"

definition example_corpus :: CorpusDescriptor where
  "example_corpus = \<lparr>IsIncluded = (\<lambda>key. True), GetStringRegistry = length\<rparr>"

definition example_object :: ImageDataDeserializer where
  "example_object =
     \<lparr>m_streams = [], m_chunks = [], m_imageSequences = [], m_keyToSequence = [], m_readers = [],
      byteReaders = [],
      m_labelGenerator = \<lparr>TElement = tfloat, m_value = 1, m_indices = [0, 1, 2, 3, 4]\<rparr>,
      m_featureElementType = tfloat, m_labelElementType = tfloat, m_grayscale = False\<rparr>"

definition example_line :: string where
  "example_line = ''img1.png'' @ [CHR 0x09] @ ''3''"

text \<open>The object after the build on the file that consists of the example line.\<close>

definition example_result :: ImageDataDeserializer where
  "example_result = example_object
     \<lparr>m_chunks := [\<lparr>ImageChunkDescription.m_id = 0, m_numberOfSamples = 1, m_numberOfSequences = 1, m_startIndex = 0\<rparr>],
      m_imageSequences := [\<lparr>SequenceDescription.m_id = 0, m_numberOfSamples = 1, m_chunkId = 0,
          m_key = \<lparr>m_sequence = 1, m_sample = 0\<rparr>, m_path = ''img1.png'', m_classId = 3\<rparr>],
      m_keyToSequence := [(1, 0)]\<rparr>"


text \<open>
  An environment in which \<^verbatim>\<open>img1.png\<close> holds three bytes and \<^verbatim>\<open>imdecode\<close> yields an 8-bit
  three-channel matrix (type 16); a configuration for the compositional constructor
  with precision \<^verbatim>\<open>float\<close>; and the store that holds the loaded chunk 0.
\<close>

definition example_env :: environment where
  "example_env =
     \<lparr>file_mapping = [''img1.png'' \<mapsto> [1, 2, 3]],
      containers = (\<lambda>containerPath. Map.empty),
      imdecode = (\<lambda>buffer flag. \<lparr>mat_type = 16, rows = 1, cols = 1, isContinuous = True, data = Some buffer\<rparr>),
      convertTo = (\<lambda>m rtype. m\<lparr>mat_type := rtype\<rparr>)\<rparr>"


definition example_heap :: heap where
  "example_heap = [Some \<lparr>object = \<lparr>ImageChunk.m_id = 0, m_data = [[1, 2, 3]]\<rparr>, use_count = 1\<rparr>]"



definition example_container_path :: string where
  "example_container_path = ''archive.zip@/sub'' @ [CHR 0x5C] @ ''dir/img.png''"

definition example_container_line :: string where
  "example_container_line = example_container_path @ [CHR 0x09] @ ''3''"


section \<open>Properties\<close>

subsection \<open>The index build: frame and layout\<close>

lemma tiles_append: "tiles a (xs @ ys) b = (\<exists>m. tiles a xs m \<and> tiles m ys b)"
  by (induction xs arbitrary: a) auto

lemma tiles_snoc: "tiles a (xs @ [c]) b = (tiles a xs (m_startIndex c) \<and> m_startIndex c + m_numberOfSequences c = b)"
  by (auto simp: tiles_append)

lemma RegisterByteReader_frame:
  assumes "RegisterByteReader flags seqId path (t, kr, rs) = Inr (t', kr', rs')"
  shows "m_chunks t' = m_chunks t \<and> m_imageSequences t' = m_imageSequences t \<and> m_keyToSequence t' = m_keyToSequence t
     \<and> m_labelGenerator t' = m_labelGenerator t \<and> m_featureElementType t' = m_featureElementType t
     \<and> m_labelElementType t' = m_labelElementType t \<and> m_grayscale t' = m_grayscale t"
  using assms
  by (auto simp: RegisterByteReader_def Let_def split: if_splits option.splits)

lemma add_sequence_effect:
  assumes "add_sequence flags corpus key path cid st = Inr st'"
  shows "m_chunks (this st') = m_chunks (this st)"
    and "m_imageSequences (this st') = m_imageSequences (this st) @
          [\<lparr>SequenceDescription.m_id = curId st, m_numberOfSamples = 1, m_chunkId = currentChunkId st,
            m_key = \<lparr>m_sequence = GetStringRegistry corpus key, m_sample = 0\<rparr>, m_path = path, m_classId = cid\<rparr>]"
    and "m_keyToSequence (this st') = AList.update (GetStringRegistry corpus key) (length (m_imageSequences (this st))) (m_keyToSequence (this st))"
    and "curId st' = curId st + 1"
    and "currentChunkId st' = currentChunkId st"
    and "currentChunk st' = (currentChunk st)\<lparr>ImageChunkDescription.m_numberOfSamples := ImageChunkDescription.m_numberOfSamples (currentChunk st) + 1,
             m_numberOfSequences := m_numberOfSequences (currentChunk st) + 1\<rparr>"
  using assms
  by (auto simp: add_sequence_def Let_def split: sum.splits dest!: RegisterByteReader_frame)


lemma in_chunk_grow:
  assumes "in_chunk (cs @ [cc]) i s" and "m_startIndex cc' = m_startIndex cc"
    and "m_numberOfSequences cc \<le> m_numberOfSequences cc'"
  shows "in_chunk (cs @ [cc']) i s"
  using assms by (auto simp: in_chunk_def nth_append split: if_splits)

lemma in_chunk_snoc:
  assumes "in_chunk chunks i s"
  shows "in_chunk (chunks @ [c]) i s"
  using assms by (auto simp: in_chunk_def nth_append)

lemma layout_inv_add_sequence:
  assumes inv: "layout_inv ipl B st"
    and step: "add_sequence flags corpus key path cid st = Inr st'"
  shows "layout_inv ipl (B + 1) st'"
proof -
  note eff = add_sequence_effect [OF step]
  let ?cs = "m_chunks (this st)" and ?cc = "currentChunk st" and ?seqs = "m_imageSequences (this st)"
  from inv have a: "curId st = length ?seqs" "currentChunkId st = length ?cs"
    "ImageChunkDescription.m_id ?cc = length ?cs"
    "ImageChunkDescription.m_numberOfSamples ?cc = m_numberOfSequences ?cc"
    "ImageChunkDescription.m_numberOfSamples ?cc \<le> B"
    "tiles 0 (?cs @ [?cc]) (length ?seqs)"
    and old: "\<forall>k<length ?cs. closed_chunk ipl k (?cs ! k)"
    and seqs: "\<forall>i<length ?seqs. in_chunk (?cs @ [?cc]) i (?seqs ! i)"
    by (simp_all add: layout_inv_def)
  have t: "tiles 0 (m_chunks (this st') @ [currentChunk st']) (length (m_imageSequences (this st')))"
    using a(6) by (simp add: eff tiles_snoc)
  have s: "\<forall>i<length (m_imageSequences (this st')).
      in_chunk (m_chunks (this st') @ [currentChunk st']) i (m_imageSequences (this st') ! i)"
  proof (intro allI impI)
    fix i assume "i < length (m_imageSequences (this st'))"
    then consider "i < length ?seqs" | "i = length ?seqs" by (auto simp: eff less_Suc_eq)
    then show "in_chunk (m_chunks (this st') @ [currentChunk st']) i (m_imageSequences (this st') ! i)"
    proof cases
      case 1
      with seqs have "in_chunk (?cs @ [?cc]) i (?seqs ! i)" by auto
      then show ?thesis using 1
        by (auto simp: eff nth_append intro: in_chunk_grow)
    next
      case 2
      then show ?thesis using a(1,2,6)
        by (simp add: eff nth_append in_chunk_def tiles_snoc)
    qed
  qed
  show ?thesis
    unfolding layout_inv_def
    using a old t s by (simp add: eff)
qed

lemma layout_inv_add_sequences:
  assumes "layout_inv ipl B st"
    and "add_sequences flags corpus key path cid n st = Inr st'"
  shows "layout_inv ipl (B + n) st'"
  using assms
proof (induction n arbitrary: st B)
  case 0
  then show ?case by simp
next
  case (Suc n)
  from Suc.prems(2) obtain st1 where s1: "add_sequence flags corpus key path cid st = Inr st1"
    and s2: "add_sequences flags corpus key path cid n st1 = Inr st'"
    by (auto split: sum.splits)
  from layout_inv_add_sequence [OF Suc.prems(1) s1] have "layout_inv ipl (B + 1) st1" .
  from Suc.IH [OF this s2] show ?case by simp
qed

lemma layout_inv_new_chunk:
  assumes inv: "layout_inv ipl (511 + ipl) st"
  shows "layout_inv ipl 511 (new_chunk_if_necessary st)"
proof (cases "511 < ImageChunkDescription.m_numberOfSamples (currentChunk st)")
  case False
  then show ?thesis using inv by (simp add: new_chunk_if_necessary_def layout_inv_def)
next
  case True
  let ?cs = "m_chunks (this st)" and ?cc = "currentChunk st" and ?seqs = "m_imageSequences (this st)"
  let ?new = "\<lparr>ImageChunkDescription.m_id = length ?cs + 1, m_numberOfSamples = 0,
                 m_numberOfSequences = 0, m_startIndex = length ?seqs\<rparr>"
  from inv have a: "curId st = length ?seqs" "currentChunkId st = length ?cs"
    "ImageChunkDescription.m_id ?cc = length ?cs"
    "ImageChunkDescription.m_numberOfSamples ?cc = m_numberOfSequences ?cc"
    "ImageChunkDescription.m_numberOfSamples ?cc \<le> 511 + ipl"
    "tiles 0 (?cs @ [?cc]) (length ?seqs)"
    and old: "\<forall>k<length ?cs. closed_chunk ipl k (?cs ! k)"
    and seqs: "\<forall>i<length ?seqs. in_chunk (?cs @ [?cc]) i (?seqs ! i)"
    by (simp_all add: layout_inv_def)
  have "closed_chunk ipl (length ?cs) ?cc"
    using a True by (simp add: closed_chunk_def)
  with old have k: "\<forall>k<length (?cs @ [?cc]). closed_chunk ipl k ((?cs @ [?cc]) ! k)"
    by (auto simp: nth_append less_Suc_eq)
  have s: "\<forall>i<length ?seqs. in_chunk ((?cs @ [?cc]) @ [?new]) i (?seqs ! i)"
    using seqs by (blast intro: in_chunk_snoc)
  have t: "tiles 0 ((?cs @ [?cc]) @ [?new]) (length ?seqs)"
    using a(6) by (subst tiles_snoc) simp
  have "new_chunk_if_necessary st =
      st\<lparr>this := (this st)\<lparr>m_chunks := ?cs @ [?cc]\<rparr>, currentChunkId := currentChunkId st + 1,
         currentChunk := ?new\<rparr>"
    using True a(2) by (simp add: new_chunk_if_necessary_def)
  then show ?thesis
    unfolding layout_inv_def
    using a k s t by simp
qed

lemma layout_inv_process_line:
  assumes "layout_inv ipl (511 + ipl) st"
    and "process_line flags corpus labelDimension ipl lineIndex line st = Inr st'"
  shows "layout_inv ipl (511 + ipl) st'"
  using assms layout_inv_add_sequences [OF layout_inv_new_chunk, of ipl st]
  by (auto simp: process_line_def split: sum.splits if_splits option.splits prod.splits)

lemma layout_inv_process_lines:
  assumes "layout_inv ipl (511 + ipl) st"
    and "process_lines flags corpus labelDimension ipl lineIndex lines st = Inr st'"
  shows "layout_inv ipl (511 + ipl) st'"
  using assms
proof (induction lines arbitrary: st lineIndex)
  case Nil
  then show ?case by simp
next
  case (Cons line rest)
  then show ?case
    by (auto split: sum.splits dest: layout_inv_process_line)
qed


lemma layout_inv_initial:
  assumes "fresh d0"
  shows "layout_inv ipl (511 + ipl) (initial_locals d0)"
  using assms by (simp add: fresh_def layout_inv_def initial_locals_def)

lemma add_sequences_effect:
  assumes "add_sequences flags corpus key path cid n st = Inr st'"
  shows "curId st' = curId st + n \<and> currentChunkId st' = currentChunkId st \<and>
         m_chunks (this st') = m_chunks (this st) \<and>
         m_imageSequences (this st') = m_imageSequences (this st) @
           map (\<lambda>i. \<lparr>SequenceDescription.m_id = curId st + i, m_numberOfSamples = 1,
                      m_chunkId = currentChunkId st,
                      m_key = \<lparr>m_sequence = GetStringRegistry corpus key, m_sample = 0\<rparr>,
                      m_path = path, m_classId = cid\<rparr>) [0..<n]"
  using assms
proof (induction n arbitrary: st)
  case 0
  then show ?case by simp
next
  case (Suc n)
  from Suc.prems obtain st1 where s1: "add_sequence flags corpus key path cid st = Inr st1"
    and s2: "add_sequences flags corpus key path cid n st1 = Inr st'"
    by (auto split: sum.splits)
  note eff = add_sequence_effect [OF s1]
  note ih = Suc.IH [OF s2]
  show ?case
    unfolding map_upt_Suc
    using ih by (simp add: eff)
qed

lemma new_chunk_curId [simp]: "curId (new_chunk_if_necessary st) = curId st"
  by (simp add: new_chunk_if_necessary_def)

lemma new_chunk_sequences [simp]:
  "m_imageSequences (this (new_chunk_if_necessary st)) = m_imageSequences (this st)"
  by (simp add: new_chunk_if_necessary_def)

lemma process_line_cases:
  assumes "process_line flags corpus labelDimension ipl lineIndex line st = Inr st'"
  obtains (skip) "\<not> accepted corpus lineIndex line" and "st' = st"
    | (add) key path cls cid where "read_columns lineIndex line = Inr (key, path, cls)"
        and "IsIncluded corpus key" and "strtoull cls = Some cid" and "cid < labelDimension"
        and "curId st + ipl \<le> CHUNKID_MAX flags"
        and "add_sequences flags corpus key path cid ipl (new_chunk_if_necessary st) = Inr st'"
  using assms
  by (auto simp: process_line_def accepted_def split: sum.splits if_splits option.splits prod.splits)

lemma process_line_curId:
  assumes "process_line flags corpus labelDimension ipl lineIndex line st = Inr st'"
  shows "curId st' = curId st + ipl * (if accepted corpus lineIndex line then 1 else 0)"
  using assms
proof (cases rule: process_line_cases)
  case skip
  then show ?thesis by simp
next
  case (add key path cls cid)
  then show ?thesis
    by (auto simp: accepted_def dest: add_sequences_effect)
qed

lemma process_lines_curId:
  assumes "process_lines flags corpus labelDimension ipl lineIndex lines st = Inr st'"
  shows "curId st' = curId st + ipl * accepted_lines corpus lineIndex lines"
  using assms
proof (induction lines arbitrary: st lineIndex)
  case Nil
  then show ?case by simp
next
  case (Cons line rest)
  from Cons.prems obtain st1 where
    s1: "process_line flags corpus labelDimension ipl lineIndex line st = Inr st1" and
    s2: "process_lines flags corpus labelDimension ipl (lineIndex + 1) rest st1 = Inr st'"
    by (auto split: sum.splits)
  show ?case
    using Cons.IH [OF s2] process_line_curId [OF s1]
    by (simp add: algebra_simps)
qed

lemma GetChunkDescriptions_eq [simp]: "GetChunkDescriptions d = m_chunks d"
proof -
  have "foldl (\<lambda>result c. result @ [c]) acc cs = acc @ cs" for acc and cs :: "ImageChunkDescription list"
    by (induction cs arbitrary: acc) simp_all
  then show ?thesis by (simp add: GetChunkDescriptions_def)
qed

lemma CreateSequenceDescriptions_cases:
  assumes "CreateSequenceDescriptions flags corpus mf labelDimension isMultiCrop d0 = Inr d"
  obtains content st where "mf = Some content"
    and "process_lines flags corpus labelDimension (if isMultiCrop then 10 else 1) 0 (getlines content)
           (initial_locals d0) = Inr st"
    and "d = (this (add_last_chunk st))
           \<lparr>byteReaders := register_readers (readerSequences (add_last_chunk st))
              (knownReaders (add_last_chunk st)) (byteReaders (this (add_last_chunk st)))\<rparr>"
  using assms
  by (auto simp: CreateSequenceDescriptions_def Let_def split: option.splits sum.splits)

lemma tiles_uniform:
  assumes "tiles a cs b" and "\<forall>k<length cs. m_numberOfSequences (cs ! k) = n"
  shows "b = a + n * length cs"
  using assms
proof (induction cs arbitrary: a)
  case Nil
  then show ?case by simp
next
  case (Cons c cs)
  from Cons.prems(2) have c: "m_numberOfSequences c = n" by force
  from Cons.prems(2) have rest: "\<forall>k<length cs. m_numberOfSequences (cs ! k) = n" by force
  from Cons.prems(1) have "tiles (a + n) cs b" by (simp add: c)
  from Cons.IH [OF this rest] show ?case by simp
qed

lemma final_layout:
  assumes inv: "layout_inv ipl (511 + ipl) st"
  defines "cs' \<equiv> m_chunks (this (add_last_chunk st))"
  defines "seqs \<equiv> m_imageSequences (this (add_last_chunk st))"
  shows "tiles 0 cs' (length seqs)"
    and "\<forall>k<length cs'. ImageChunkDescription.m_id (cs' ! k) = k \<and> 0 < m_numberOfSequences (cs' ! k) \<and>
           ImageChunkDescription.m_numberOfSamples (cs' ! k) = m_numberOfSequences (cs' ! k) \<and>
           ImageChunkDescription.m_numberOfSamples (cs' ! k) < 512 + ipl"
    and "\<forall>k. Suc k < length cs' \<longrightarrow> 511 < ImageChunkDescription.m_numberOfSamples (cs' ! k)"
    and "\<forall>i<length seqs. in_chunk cs' i (seqs ! i)"
    and "seqs = m_imageSequences (this st)"
proof -
  let ?cs = "m_chunks (this st)" and ?cc = "currentChunk st" and ?seqs = "m_imageSequences (this st)"
  from inv have a: "curId st = length ?seqs" "currentChunkId st = length ?cs"
    "ImageChunkDescription.m_id ?cc = length ?cs"
    "ImageChunkDescription.m_numberOfSamples ?cc = m_numberOfSequences ?cc"
    "ImageChunkDescription.m_numberOfSamples ?cc \<le> 511 + ipl"
    "tiles 0 (?cs @ [?cc]) (length ?seqs)"
    and old: "\<forall>k<length ?cs. closed_chunk ipl k (?cs ! k)"
    and sq: "\<forall>i<length ?seqs. in_chunk (?cs @ [?cc]) i (?seqs ! i)"
    by (simp_all add: layout_inv_def)
  show s: "seqs = ?seqs" by (simp add: seqs_def add_last_chunk_def)
  show "tiles 0 cs' (length seqs)"
    using a(4,6) by (auto simp: s cs'_def add_last_chunk_def tiles_snoc)
  show "\<forall>k<length cs'. ImageChunkDescription.m_id (cs' ! k) = k \<and> 0 < m_numberOfSequences (cs' ! k) \<and>
           ImageChunkDescription.m_numberOfSamples (cs' ! k) = m_numberOfSequences (cs' ! k) \<and>
           ImageChunkDescription.m_numberOfSamples (cs' ! k) < 512 + ipl"
    using a(3,4,5) old
    by (auto simp: cs'_def add_last_chunk_def closed_chunk_def nth_append less_Suc_eq)
  show "\<forall>k. Suc k < length cs' \<longrightarrow> 511 < ImageChunkDescription.m_numberOfSamples (cs' ! k)"
  proof (intro allI impI)
    fix k assume k: "Suc k < length cs'"
    have "length cs' \<le> Suc (length ?cs)" by (simp add: cs'_def add_last_chunk_def)
    with k have kl: "k < length ?cs" by simp
    with old have "closed_chunk ipl k (?cs ! k)" by simp
    moreover have "cs' ! k = ?cs ! k" using kl by (simp add: cs'_def add_last_chunk_def nth_append)
    ultimately show "511 < ImageChunkDescription.m_numberOfSamples (cs' ! k)"
      by (simp add: closed_chunk_def)
  qed
  show "\<forall>i<length seqs. in_chunk cs' i (seqs ! i)"
  proof (cases "0 < ImageChunkDescription.m_numberOfSamples ?cc")
    case True
    then show ?thesis using sq by (simp add: s cs'_def add_last_chunk_def)
  next
    case False
    then have c: "cs' = ?cs" by (simp add: cs'_def add_last_chunk_def)
    show ?thesis
    proof (intro allI impI)
      fix i assume "i < length seqs"
      with sq s have "in_chunk (?cs @ [?cc]) i (?seqs ! i)" by simp
      then show "in_chunk cs' i (seqs ! i)"
        using False a(4) by (auto simp: in_chunk_def c s nth_append split: if_splits)
    qed
  qed
qed

lemma single_view_600:
  assumes inv: "layout_inv 1 512 st" and n: "length (m_imageSequences (this st)) = 600"
  shows "m_chunks (this (add_last_chunk st)) =
     [\<lparr>ImageChunkDescription.m_id = 0, m_numberOfSamples = 512, m_numberOfSequences = 512, m_startIndex = 0\<rparr>,
      \<lparr>ImageChunkDescription.m_id = 1, m_numberOfSamples = 88, m_numberOfSequences = 88, m_startIndex = 512\<rparr>]"
proof -
  let ?cs = "m_chunks (this st)" and ?cc = "currentChunk st" and ?seqs = "m_imageSequences (this st)"
  from inv have a:
    "ImageChunkDescription.m_id ?cc = length ?cs"
    "ImageChunkDescription.m_numberOfSamples ?cc = m_numberOfSequences ?cc"
    "ImageChunkDescription.m_numberOfSamples ?cc \<le> 512"
    "tiles 0 (?cs @ [?cc]) (length ?seqs)"
    and old: "\<forall>k<length ?cs. closed_chunk 1 k (?cs ! k)"
    by (simp_all add: layout_inv_def)
  from old have u: "\<forall>k<length ?cs. m_numberOfSequences (?cs ! k) = 512"
    by (auto simp: closed_chunk_def)
  from a(4) have t: "tiles 0 ?cs (m_startIndex ?cc)" and e: "m_startIndex ?cc + m_numberOfSequences ?cc = 600"
    by (simp_all add: tiles_snoc n)
  from tiles_uniform [OF t u] have st: "m_startIndex ?cc = 512 * length ?cs" by simp
  from e st have le: "512 * length ?cs \<le> 600" by simp
  from e st a(2,3) have ge: "88 \<le> 512 * length ?cs" by simp
  have len: "length ?cs = 1"
  proof (cases "length ?cs")
    case 0
    with ge show ?thesis by simp
  next
    case (Suc m)
    with le have "m = 0" by (cases m) simp_all
    with Suc show ?thesis by simp
  qed
  with e st have cnt: "m_numberOfSequences ?cc = 88" by simp
  from len obtain c0 where cs: "?cs = [c0]" by (cases ?cs) auto
  from old cs have c0: "closed_chunk 1 0 c0" by force
  from t cs have s0: "m_startIndex c0 = 0" by simp
  have c0_eq: "c0 = \<lparr>ImageChunkDescription.m_id = 0, m_numberOfSamples = 512, m_numberOfSequences = 512, m_startIndex = 0\<rparr>"
    using c0 s0 by (cases c0) (auto simp: closed_chunk_def)
  have cc_eq: "?cc = \<lparr>ImageChunkDescription.m_id = 1, m_numberOfSamples = 88, m_numberOfSequences = 88, m_startIndex = 512\<rparr>"
    using a(1,2) cnt st len by (cases ?cc) auto
  show ?thesis
    using cs c0_eq cc_eq by (simp add: add_last_chunk_def)
qed

text \<open>
  Claim C1. After a successful \<^verbatim>\<open>CreateSequenceDescriptions\<close> on an object whose tables
  were empty, the chunk descriptions tile the sequence table: chunk \<open>k\<close> has id \<open>k\<close>, the
  first chunk starts at 0, each chunk starts where the previous one ends, the last one
  ends at \<open>N\<close>, the number of sequences, and no chunk is empty. \<open>N\<close> is the number of
  generated ids: \<open>itemsPerLine\<close> times the number of accepted lines, and the sequence
  at position \<open>i\<close> has id \<open>i\<close> and lies in the range of the chunk its chunk id names. A
  chunk is closed, and a new one started, only once it holds more than 511 samples (that
  is, 512 or more), and no chunk grows beyond 511 samples plus one line's items. With 600
  accepted lines in single-view mode there are exactly two chunks: ids 0 to 511 and ids
  512 to 599.
\<close>

theorem C1_chunks_partition_sequences:
  assumes build: "CreateSequenceDescriptions flags corpus (Some content) labelDimension isMultiCrop d0 = Inr d"
    and fresh: "fresh d0"
  shows "tiles 0 (GetChunkDescriptions d) (length (m_imageSequences d)) \<and>
    length (m_imageSequences d) =
      (if isMultiCrop then 10 else 1) * accepted_lines corpus 0 (getlines content) \<and>
    (\<forall>k<length (GetChunkDescriptions d).
       ImageChunkDescription.m_id (GetChunkDescriptions d ! k) = k \<and>
       0 < m_numberOfSequences (GetChunkDescriptions d ! k) \<and>
       ImageChunkDescription.m_numberOfSamples (GetChunkDescriptions d ! k)
         = m_numberOfSequences (GetChunkDescriptions d ! k) \<and>
       ImageChunkDescription.m_numberOfSamples (GetChunkDescriptions d ! k)
         < 512 + (if isMultiCrop then 10 else 1)) \<and>
    (\<forall>k. Suc k < length (GetChunkDescriptions d) \<longrightarrow>
       511 < ImageChunkDescription.m_numberOfSamples (GetChunkDescriptions d ! k)) \<and>
    (\<forall>i<length (m_imageSequences d). in_chunk (GetChunkDescriptions d) i (m_imageSequences d ! i)) \<and>
    (\<not> isMultiCrop \<and> accepted_lines corpus 0 (getlines content) = 600 \<longrightarrow>
       GetChunkDescriptions d =
         [\<lparr>ImageChunkDescription.m_id = 0, m_numberOfSamples = 512, m_numberOfSequences = 512, m_startIndex = 0\<rparr>,
          \<lparr>ImageChunkDescription.m_id = 1, m_numberOfSamples = 88, m_numberOfSequences = 88, m_startIndex = 512\<rparr>])"
proof -
  let ?ipl = "if isMultiCrop then 10 else 1 :: nat"
  from build obtain st where
    run: "process_lines flags corpus labelDimension ?ipl 0 (getlines content) (initial_locals d0) = Inr st"
    and d: "d = (this (add_last_chunk st))
           \<lparr>byteReaders := register_readers (readerSequences (add_last_chunk st))
              (knownReaders (add_last_chunk st)) (byteReaders (this (add_last_chunk st)))\<rparr>"
    by (cases rule: CreateSequenceDescriptions_cases) auto
  have inv: "layout_inv ?ipl (511 + ?ipl) st"
    by (rule layout_inv_process_lines [OF layout_inv_initial [OF fresh] run])
  note fin = final_layout [OF inv]
  have cs: "GetChunkDescriptions d = m_chunks (this (add_last_chunk st))"
    and sq: "m_imageSequences d = m_imageSequences (this (add_last_chunk st))"
    by (simp_all add: d)
  have "curId st = length (m_imageSequences (this st))"
    using inv by (simp add: layout_inv_def)
  with process_lines_curId [OF run]
  have n: "length (m_imageSequences d) = ?ipl * accepted_lines corpus 0 (getlines content)"
    by (simp add: sq fin(5) initial_locals_def)
  have sc: "GetChunkDescriptions d =
         [\<lparr>ImageChunkDescription.m_id = 0, m_numberOfSamples = 512, m_numberOfSequences = 512, m_startIndex = 0\<rparr>,
          \<lparr>ImageChunkDescription.m_id = 1, m_numberOfSamples = 88, m_numberOfSequences = 88, m_startIndex = 512\<rparr>]"
    if "\<not> isMultiCrop" and "accepted_lines corpus 0 (getlines content) = 600"
  proof -
    from that inv have "layout_inv 1 512 st" by simp
    moreover from that n have "length (m_imageSequences (this st)) = 600"
      by (simp add: sq fin(5))
    ultimately show ?thesis by (simp only: cs single_view_600)
  qed
  show ?thesis
    unfolding cs sq
    using fin(1-4) n sc by (simp only: cs sq) blast
qed


lemma getlines_replicate:
  assumes "l \<noteq> []" and "CHR 0x0A \<notin> set l"
  shows "getlines (concat (replicate n (l @ [CHR 0x0A]))) = replicate n l"
proof (induction n)
  case 0
  show ?case by (simp add: getlines.simps)
next
  case (Suc n)
  let ?rest = "concat (replicate n (l @ [CHR 0x0A]))"
  have t: "takeWhile (\<lambda>c. c \<noteq> CHR 0x0A) (l @ CHR 0x0A # ?rest) = l"
    using assms(2) by (subst takeWhile_append2) auto
  have d: "dropWhile (\<lambda>c. c \<noteq> CHR 0x0A) (l @ CHR 0x0A # ?rest) = CHR 0x0A # ?rest"
    using assms(2) by (subst dropWhile_append2) auto
  have "getlines (l @ CHR 0x0A # ?rest) = l # getlines ?rest"
    by (subst getlines.simps) (simp add: t d assms(1))
  with Suc show ?case by simp
qed

lemma RegisterByteReader_plain:
  assumes "path \<noteq> []" and "CHR ''@'' \<notin> set path"
  shows "RegisterByteReader flags seqId path s = Inr s"
  using assms by (cases s) (simp add: RegisterByteReader_def assert_fails_def)

lemma add_sequences_plain:
  assumes "path \<noteq> []" and "CHR ''@'' \<notin> set path"
  shows "\<exists>st'. add_sequences flags corpus key path cid n st = Inr st'"
proof (induction n arbitrary: st)
  case 0
  show ?case by simp
next
  case (Suc n)
  have "\<exists>st1. add_sequence flags corpus key path cid st = Inr st1"
    by (simp add: add_sequence_def Let_def RegisterByteReader_plain [OF assms])
  then obtain st1 where "add_sequence flags corpus key path cid st = Inr st1" ..
  with Suc [of st1] show ?case by simp
qed

lemma process_line_valid:
  assumes "read_columns lineIndex line = Inr (key, path, cls)"
    and "IsIncluded corpus key" and "strtoull cls = Some cid" and "cid < labelDimension"
    and "curId st + ipl \<le> CHUNKID_MAX flags"
    and "path \<noteq> []" and "CHR ''@'' \<notin> set path"
  shows "\<exists>st'. process_line flags corpus labelDimension ipl lineIndex line st = Inr st'"
  using assms add_sequences_plain [OF assms(6,7), of flags corpus key cid ipl "new_chunk_if_necessary st"]
  by (auto simp: process_line_def)

lemma process_lines_replicate:
  assumes cols: "\<And>i. \<exists>key. read_columns i line = Inr (key, path, cls) \<and> IsIncluded corpus key"
    and "strtoull cls = Some cid" and "cid < labelDimension"
    and "path \<noteq> []" and "CHR ''@'' \<notin> set path"
    and "curId st + ipl * n \<le> CHUNKID_MAX flags"
  shows "\<exists>st'. process_lines flags corpus labelDimension ipl lineIndex (replicate n line) st = Inr st'"
  using assms(6)
proof (induction n arbitrary: st lineIndex)
  case 0
  show ?case by simp
next
  case (Suc n)
  from cols [of lineIndex] obtain key where
    k: "read_columns lineIndex line = Inr (key, path, cls)" "IsIncluded corpus key" by blast
  from Suc.prems have "curId st + ipl \<le> CHUNKID_MAX flags" by simp
  from process_line_valid [OF k assms(2,3) this assms(4,5)]
  obtain st1 where s1: "process_line flags corpus labelDimension ipl lineIndex line st = Inr st1" ..
  from process_line_curId [OF s1] k have "curId st1 = curId st + ipl"
    by (simp add: accepted_def)
  with Suc.prems have "curId st1 + ipl * n \<le> CHUNKID_MAX flags" by simp
  from Suc.IH [OF this, of "lineIndex + 1"] s1 show ?case by simp
qed

lemma accepted_lines_replicate:
  assumes "\<And>i. accepted corpus i line"
  shows "accepted_lines corpus lineIndex (replicate n line) = n"
  by (induction n arbitrary: lineIndex) (simp_all add: assms)

lemma example_getlines: "getlines (example_line @ [CHR 0x0A]) = [example_line]"
  using getlines_replicate [of example_line 1] by (simp add: example_line_def)

lemma example_columns: "read_columns i example_line = Inr (to_string i, ''img1.png'', ''3'')"
  by (simp add: example_line_def read_columns_def getline_def old_format_def)

lemma strtoull_3: "strtoull ''3'' = Some 3"
  by (simp add: strtoull_def isspace_def isdigit_def decimal_value_def digit_value_def ULLONG_MAX_def)

lemma to_string_0: "to_string 0 = ''0''"
  by (simp add: to_string.simps digit_char_def)

lemma example_fresh: "fresh example_object"
  by (simp add: fresh_def example_object_def)

lemma example_build:
  "CreateSequenceDescriptions example_flags example_corpus (Some (example_line @ [CHR 0x0A])) 5 False
     example_object = Inr example_result"
proof -
  have "process_line example_flags example_corpus 5 1 0 example_line (initial_locals example_object)
     = Inr ((initial_locals example_object)
         \<lparr>this := example_object
            \<lparr>m_keyToSequence := [(1, 0)],
             m_imageSequences := [\<lparr>SequenceDescription.m_id = 0, m_numberOfSamples = 1, m_chunkId = 0,
                m_key = \<lparr>m_sequence = 1, m_sample = 0\<rparr>, m_path = ''img1.png'', m_classId = 3\<rparr>]\<rparr>,
          currentChunk := \<lparr>ImageChunkDescription.m_id = 0, m_numberOfSamples = 1, m_numberOfSequences = 1, m_startIndex = 0\<rparr>,
          curId := 1\<rparr>)"
    by (simp add: process_line_def example_columns strtoull_3 to_string_0 example_corpus_def example_flags_def
        initial_locals_def new_chunk_if_necessary_def add_sequence_def RegisterByteReader_def
        assert_fails_def example_object_def)
  then show ?thesis
    by (simp add: CreateSequenceDescriptions_def example_getlines add_last_chunk_def initial_locals_def
        example_result_def example_object_def)
qed

theorem C1_chunks_partition_sequences_witness:
  "\<exists>d. CreateSequenceDescriptions example_flags example_corpus
          (Some (concat (replicate 600 (example_line @ [CHR 0x0A]))))
          5 False example_object = Inr d \<and>
       length (m_imageSequences d) = 600 \<and>
       tiles 0 (GetChunkDescriptions d) 600 \<and>
       GetChunkDescriptions d =
         [\<lparr>ImageChunkDescription.m_id = 0, m_numberOfSamples = 512, m_numberOfSequences = 512, m_startIndex = 0\<rparr>,
          \<lparr>ImageChunkDescription.m_id = 1, m_numberOfSamples = 88, m_numberOfSequences = 88, m_startIndex = 512\<rparr>]"
proof -
  let ?line = "example_line"
  let ?content = "concat (replicate 600 (?line @ [CHR 0x0A]))"
  have lines: "getlines ?content = replicate 600 ?line"
    by (rule getlines_replicate) (simp_all add: example_line_def)
  have acc: "accepted_lines example_corpus 0 (getlines ?content) = 600"
    unfolding lines
    by (rule accepted_lines_replicate) (simp add: accepted_def example_columns example_corpus_def)
  have "\<exists>st. process_lines example_flags example_corpus 5 1 0 (replicate 600 ?line)
           (initial_locals example_object) = Inr st"
    by (rule process_lines_replicate [where path = "''img1.png''" and cls = "''3''" and cid = 3])
      (simp_all add: example_columns strtoull_3 example_corpus_def example_flags_def initial_locals_def)
  then obtain d where
    d: "CreateSequenceDescriptions example_flags example_corpus (Some ?content) 5 False example_object = Inr d"
    by (auto simp: CreateSequenceDescriptions_def lines Let_def)
  from C1_chunks_partition_sequences [OF d example_fresh] acc
  have "length (m_imageSequences d) = 600 \<and> tiles 0 (GetChunkDescriptions d) 600 \<and>
       GetChunkDescriptions d =
         [\<lparr>ImageChunkDescription.m_id = 0, m_numberOfSamples = 512, m_numberOfSequences = 512, m_startIndex = 0\<rparr>,
          \<lparr>ImageChunkDescription.m_id = 1, m_numberOfSamples = 88, m_numberOfSequences = 88, m_startIndex = 512\<rparr>]"
    by simp
  with d show ?thesis by blast
qed


subsection \<open>The index build: class ids\<close>

lemma add_sequences_preserves:
  assumes run: "add_sequences flags corpus key path cid n st = Inr st'"
    and init: "P st"
    and add: "\<And>st st'. P st \<Longrightarrow> add_sequence flags corpus key path cid st = Inr st' \<Longrightarrow> P st'"
  shows "P st'"
  using run init
proof (induction n arbitrary: st)
  case 0
  then show ?case by simp
next
  case (Suc n)
  from Suc.prems(1) obtain st1 where s1: "add_sequence flags corpus key path cid st = Inr st1"
    and s2: "add_sequences flags corpus key path cid n st1 = Inr st'"
    by (auto split: sum.splits)
  from add [OF Suc.prems(2) s1] have "P st1" .
  from Suc.IH [OF s2 this] show ?case .
qed

lemma process_lines_preserves:
  assumes run: "process_lines flags corpus labelDimension ipl lineIndex lines st = Inr st'"
    and init: "P st"
    and chunk: "\<And>st. P st \<Longrightarrow> P (new_chunk_if_necessary st)"
    and add: "\<And>st st' j key path cls cid. P st \<Longrightarrow> j < length lines \<Longrightarrow>
        read_columns (lineIndex + j) (lines ! j) = Inr (key, path, cls) \<Longrightarrow>
        IsIncluded corpus key \<Longrightarrow> strtoull cls = Some cid \<Longrightarrow> cid < labelDimension \<Longrightarrow>
        add_sequence flags corpus key path cid st = Inr st' \<Longrightarrow> P st'"
  shows "P st'"
  using run init add
proof (induction lines arbitrary: st lineIndex)
  case Nil
  then show ?case by simp
next
  case (Cons line rest)
  from Cons.prems(1) obtain st1 where
    s1: "process_line flags corpus labelDimension ipl lineIndex line st = Inr st1" and
    s2: "process_lines flags corpus labelDimension ipl (lineIndex + 1) rest st1 = Inr st'"
    by (auto split: sum.splits)
  have p1: "P st1"
    using s1
  proof (cases rule: process_line_cases)
    case skip
    with Cons.prems(2) show ?thesis by simp
  next
    case (add key path cls cid)
    show ?thesis
    proof (rule add_sequences_preserves [where P = P, OF add(6) chunk [OF Cons.prems(2)]])
      fix s s' assume "P s" and "add_sequence flags corpus key path cid s = Inr s'"
      then show "P s'"
        using Cons.prems(3) [of s 0 key path cls cid s'] add(1-4) by simp
    qed
  qed
  show ?case
  proof (rule Cons.IH [OF s2 p1])
    fix s s' j key path cls cid
    assume "P s" "j < length rest" "read_columns (lineIndex + 1 + j) (rest ! j) = Inr (key, path, cls)"
      "IsIncluded corpus key" "strtoull cls = Some cid" "cid < labelDimension"
      "add_sequence flags corpus key path cid s = Inr s'"
    then show "P s'"
      using Cons.prems(3) [of s "Suc j" key path cls cid s'] by simp
  qed
qed

lemma process_lines_accepted_valid:
  assumes "process_lines flags corpus labelDimension ipl lineIndex lines st = Inr st'"
    and "j < length lines" and "accepted corpus (lineIndex + j) (lines ! j)"
  shows "\<exists>key path cls cid. read_columns (lineIndex + j) (lines ! j) = Inr (key, path, cls) \<and>
           strtoull cls = Some cid \<and> cid < labelDimension"
  using assms
proof (induction lines arbitrary: st lineIndex j)
  case Nil
  then show ?case by simp
next
  case (Cons line rest)
  from Cons.prems(1) obtain st1 where
    s1: "process_line flags corpus labelDimension ipl lineIndex line st = Inr st1" and
    s2: "process_lines flags corpus labelDimension ipl (lineIndex + 1) rest st1 = Inr st'"
    by (auto split: sum.splits)
  show ?case
  proof (cases j)
    case 0
    from s1 show ?thesis
    proof (cases rule: process_line_cases)
      case skip
      with 0 Cons.prems(3) show ?thesis by simp
    next
      case (add key path cls cid)
      with 0 show ?thesis by simp
    qed
  next
    case (Suc j')
    with Cons.prems(2,3) Cons.IH [OF s2, of j'] show ?thesis by simp
  qed
qed

lemma build_sequences_from_lines:
  assumes build: "CreateSequenceDescriptions flags corpus (Some content) labelDimension isMultiCrop d0 = Inr d"
    and fresh: "fresh d0"
  shows "\<forall>s\<in>set (m_imageSequences d). m_classId s < labelDimension \<and> from_line corpus (getlines content) s"
proof -
  let ?ipl = "if isMultiCrop then 10 else 1 :: nat"
  let ?P = "\<lambda>st :: locals. \<forall>s\<in>set (m_imageSequences (this st)). m_classId s < labelDimension \<and> from_line corpus (getlines content) s"
  from build obtain st where
    run: "process_lines flags corpus labelDimension ?ipl 0 (getlines content) (initial_locals d0) = Inr st"
    and d: "d = (this (add_last_chunk st))
           \<lparr>byteReaders := register_readers (readerSequences (add_last_chunk st))
              (knownReaders (add_last_chunk st)) (byteReaders (this (add_last_chunk st)))\<rparr>"
    by (cases rule: CreateSequenceDescriptions_cases) auto
  have "?P st"
  proof (rule process_lines_preserves [OF run, where P = ?P])
    show "?P (initial_locals d0)" using fresh by (simp add: fresh_def initial_locals_def)
  next
    fix s :: locals assume "?P s" then show "?P (new_chunk_if_necessary s)" by simp
  next
    fix s s' :: locals and j key path cls cid
    assume p: "?P s" and j: "j < length (getlines content)"
      and r: "read_columns (0 + j) (getlines content ! j) = Inr (key, path, cls)"
      and i: "IsIncluded corpus key" and c: "strtoull cls = Some cid" "cid < labelDimension"
      and a: "add_sequence flags corpus key path cid s = Inr s'"
    have "from_line corpus (getlines content)
        \<lparr>SequenceDescription.m_id = curId s, m_numberOfSamples = 1, m_chunkId = currentChunkId s,
            m_key = \<lparr>m_sequence = GetStringRegistry corpus key, m_sample = 0\<rparr>, m_path = path, m_classId = cid\<rparr>"
      unfolding from_line_def using j r i c by auto
    with p c show "?P s'"
      by (auto simp: add_sequence_effect(2) [OF a])
  qed
  then show ?thesis by (simp add: d add_last_chunk_def)
qed

lemma strtoull_leading_digits:
  assumes d: "digits \<noteq> []" "list_all isdigit digits"
    and r: "rest = [] \<or> \<not> isdigit (hd rest)"
    and v: "decimal_value digits \<le> ULLONG_MAX"
  shows "strtoull (digits @ rest) = Some (decimal_value digits)"
proof -
  from d obtain c cs where ds: "digits = c # cs" and c: "isdigit c" by (cases digits) auto
  from c have ns: "\<not> isspace c" and nm: "c \<noteq> CHR ''-''" and np: "c \<noteq> CHR ''+''"
    by (auto simp: isdigit_def isspace_def)
  have tw: "takeWhile isdigit (digits @ rest) = digits"
  proof -
    have "takeWhile isdigit rest = []" using r by (cases rest) auto
    moreover have "\<forall>x\<in>set digits. isdigit x" using d(2) by (simp add: list_all_iff)
    ultimately show ?thesis by (simp add: takeWhile_append2)
  qed
  have dw: "dropWhile isspace (digits @ rest) = digits @ rest" using ns by (simp add: ds)
  have hd: "hd (digits @ rest) = c" by (simp add: ds)
  show ?thesis
    unfolding strtoull_def dw Let_def hd
    using nm np v d(1) by (simp add: tw)
qed

lemma example_build_class:
  assumes "read_columns 0 line = Inr (''0'', ''img1.png'', cls)" and "strtoull cls = Some 3"
    and "getlines (line @ [CHR 0x0A]) = [line]"
  shows "CreateSequenceDescriptions example_flags example_corpus (Some (line @ [CHR 0x0A])) 5 False example_object
     = Inr example_result"
proof -
  have "process_line example_flags example_corpus 5 1 0 line (initial_locals example_object)
     = Inr ((initial_locals example_object)
         \<lparr>this := example_object
            \<lparr>m_keyToSequence := [(1, 0)],
             m_imageSequences := [\<lparr>SequenceDescription.m_id = 0, m_numberOfSamples = 1, m_chunkId = 0,
                m_key = \<lparr>m_sequence = 1, m_sample = 0\<rparr>, m_path = ''img1.png'', m_classId = 3\<rparr>]\<rparr>,
          currentChunk := \<lparr>ImageChunkDescription.m_id = 0, m_numberOfSamples = 1, m_numberOfSequences = 1, m_startIndex = 0\<rparr>,
          curId := 1\<rparr>)"
    by (simp add: process_line_def assms(1,2) example_corpus_def example_flags_def
        initial_locals_def new_chunk_if_necessary_def add_sequence_def RegisterByteReader_def
        assert_fails_def example_object_def)
  then show ?thesis
    by (simp add: CreateSequenceDescriptions_def assms(3) add_last_chunk_def initial_locals_def
        example_result_def example_object_def)
qed

lemma strtoull_3abc: "strtoull ''3abc'' = Some 3"
  by (simp add: strtoull_def isspace_def isdigit_def decimal_value_def digit_value_def ULLONG_MAX_def)

lemma strtoull_wrapped: "strtoull ''-18446744073709551613'' = Some 3"
  by (simp add: strtoull_def isspace_def isdigit_def decimal_value_def digit_value_def ULLONG_MAX_def)

text \<open>
  Claim C2, amended. For an accepted line (one that has its columns and whose key the
  corpus includes), the loop body fails with "Cannot parse label value" when \<^verbatim>\<open>strtoull\<close>
  converts no digit of the class-id column or reports a range error, and with "invalid
  class id" when the converted value is not below \<open>labelDimension\<close>. A column that starts
  with decimal digits is converted as those digits, whatever follows them. Hence, after
  a successful build, the class-id column of every accepted line converted to a value
  below \<open>labelDimension\<close>, and every stored sequence has a class id below
  \<open>labelDimension\<close> that is the very value converted from its line: none is clamped.
\<close>

theorem C2_class_id_checked:
  "(accepted corpus lineIndex line \<longrightarrow>
      read_columns lineIndex line = Inr (key, path, cls) \<longrightarrow>
      (strtoull cls = None \<longrightarrow>
         process_line flags corpus labelDimension itemsPerLine lineIndex line st
           = Inl (CannotParseLabelValue lineIndex)) \<and>
      (\<forall>cid. strtoull cls = Some cid \<and> labelDimension \<le> cid \<longrightarrow>
         process_line flags corpus labelDimension itemsPerLine lineIndex line st
           = Inl (InvalidClassId path cid labelDimension lineIndex))) \<and>
   (digits \<noteq> [] \<and> list_all isdigit digits \<and> (rest = [] \<or> \<not> isdigit (hd rest)) \<and>
    decimal_value digits \<le> ULLONG_MAX \<longrightarrow>
      strtoull (digits @ rest) = Some (decimal_value digits)) \<and>
   (CreateSequenceDescriptions flags corpus (Some content) labelDimension isMultiCrop d0 = Inr d \<and> fresh d0 \<longrightarrow>
      (\<forall>i<length (getlines content). accepted corpus i (getlines content ! i) \<longrightarrow>
         (\<exists>key path cls cid. read_columns i (getlines content ! i) = Inr (key, path, cls) \<and>
            strtoull cls = Some cid \<and> cid < labelDimension)) \<and>
      (\<forall>s\<in>set (m_imageSequences d). m_classId s < labelDimension \<and> from_line corpus (getlines content) s))"
proof (intro conjI impI)
  assume "accepted corpus lineIndex line" and "read_columns lineIndex line = Inr (key, path, cls)"
  then have inc: "IsIncluded corpus key" by (simp add: accepted_def)
  {
    assume "strtoull cls = None"
    then show "process_line flags corpus labelDimension itemsPerLine lineIndex line st
           = Inl (CannotParseLabelValue lineIndex)"
      using inc \<open>read_columns lineIndex line = Inr (key, path, cls)\<close>
      by (simp add: process_line_def)
  }
  show "\<forall>cid. strtoull cls = Some cid \<and> labelDimension \<le> cid \<longrightarrow>
         process_line flags corpus labelDimension itemsPerLine lineIndex line st
           = Inl (InvalidClassId path cid labelDimension lineIndex)"
    using inc \<open>read_columns lineIndex line = Inr (key, path, cls)\<close>
    by (simp add: process_line_def)
next
  assume "digits \<noteq> [] \<and> list_all isdigit digits \<and> (rest = [] \<or> \<not> isdigit (hd rest)) \<and>
    decimal_value digits \<le> ULLONG_MAX"
  then show "strtoull (digits @ rest) = Some (decimal_value digits)"
    by (intro strtoull_leading_digits) simp_all
next
  assume a: "CreateSequenceDescriptions flags corpus (Some content) labelDimension isMultiCrop d0 = Inr d \<and> fresh d0"
  then have b: "CreateSequenceDescriptions flags corpus (Some content) labelDimension isMultiCrop d0 = Inr d"
    and f: "fresh d0" by simp_all
  from b obtain st where
    run: "process_lines flags corpus labelDimension (if isMultiCrop then 10 else 1) 0 (getlines content) (initial_locals d0) = Inr st"
    by (cases rule: CreateSequenceDescriptions_cases) auto
  show "\<forall>i<length (getlines content). accepted corpus i (getlines content ! i) \<longrightarrow>
         (\<exists>key path cls cid. read_columns i (getlines content ! i) = Inr (key, path, cls) \<and>
            strtoull cls = Some cid \<and> cid < labelDimension)"
    using process_lines_accepted_valid [OF run] by simp
  show "\<forall>s\<in>set (m_imageSequences d). m_classId s < labelDimension \<and> from_line corpus (getlines content) s"
    by (rule build_sequences_from_lines [OF b f])
qed

text \<open>
  Claim C2 as stated fails: the class-id columns \<^verbatim>\<open>3abc\<close> and \<^verbatim>\<open>-18446744073709551613\<close>
  are not unsigned integers, yet the build on a file with either of them succeeds and
  stores the class id 3, as it does for the column \<^verbatim>\<open>3\<close>.
\<close>

theorem C2_class_id_not_an_unsigned_integer_counterexample:
  "\<not> list_all isdigit ''3abc'' \<and>
   CreateSequenceDescriptions example_flags example_corpus
     (Some (''img1.png'' @ [CHR 0x09] @ ''3abc'' @ [CHR 0x0A])) 5 False example_object = Inr example_result \<and>
   \<not> list_all isdigit ''-18446744073709551613'' \<and>
   CreateSequenceDescriptions example_flags example_corpus
     (Some (''img1.png'' @ [CHR 0x09] @ ''-18446744073709551613'' @ [CHR 0x0A])) 5 False example_object
     = Inr example_result \<and>
   map m_classId (m_imageSequences example_result) = [3]"
proof -
  let ?a = "''img1.png'' @ [CHR 0x09] @ ''3abc''" and ?b = "''img1.png'' @ [CHR 0x09] @ ''-18446744073709551613''"
  have ca: "read_columns 0 ?a = Inr (''0'', ''img1.png'', ''3abc'')"
    and cb: "read_columns 0 ?b = Inr (''0'', ''img1.png'', ''-18446744073709551613'')"
    by (simp_all add: read_columns_def getline_def old_format_def to_string_0)
  have ga: "getlines (?a @ [CHR 0x0A]) = [?a]" using getlines_replicate [of ?a 1] by simp
  have gb: "getlines (?b @ [CHR 0x0A]) = [?b]" using getlines_replicate [of ?b 1] by simp
  have "CreateSequenceDescriptions example_flags example_corpus (Some (?a @ [CHR 0x0A])) 5 False example_object
      = Inr example_result"
    by (rule example_build_class [OF ca strtoull_3abc ga])
  moreover have "CreateSequenceDescriptions example_flags example_corpus (Some (?b @ [CHR 0x0A])) 5 False example_object
      = Inr example_result"
    by (rule example_build_class [OF cb strtoull_wrapped gb])
  moreover have "\<not> list_all isdigit ''3abc''" "\<not> list_all isdigit ''-18446744073709551613''"
    by (simp_all add: isdigit_def)
  moreover have "map m_classId (m_imageSequences example_result) = [3]"
    by (simp add: example_result_def)
  ultimately show ?thesis by simp
qed

text \<open>
  The amended claim C2 at the lines \<^verbatim>\<open>img1.png<TAB>5\<close> and \<^verbatim>\<open>img1.png<TAB>x\<close> with label
  dimension 5, at the column \<^verbatim>\<open>3abc\<close>, and at the build of the example file.
\<close>

theorem C2_class_id_checked_witness:
  "process_line example_flags example_corpus 5 1 0 (''img1.png'' @ [CHR 0x09] @ ''5'')
       (initial_locals example_object) = Inl (InvalidClassId ''img1.png'' 5 5 0) \<and>
   process_line example_flags example_corpus 5 1 0 (''img1.png'' @ [CHR 0x09] @ ''x'')
       (initial_locals example_object) = Inl (CannotParseLabelValue 0) \<and>
   strtoull (''3'' @ ''abc'') = Some (decimal_value ''3'') \<and> decimal_value ''3'' = 3 \<and>
   CreateSequenceDescriptions example_flags example_corpus (Some (example_line @ [CHR 0x0A])) 5 False
       example_object = Inr example_result \<and>
   map m_classId (m_imageSequences example_result) = [3] \<and>
   list_all (\<lambda>s. m_classId s < 5) (m_imageSequences example_result)"
proof -
  let ?l5 = "''img1.png'' @ [CHR 0x09] @ ''5''" and ?lx = "''img1.png'' @ [CHR 0x09] @ ''x''"
  have c5: "read_columns 0 ?l5 = Inr (''0'', ''img1.png'', ''5'')"
    and cx: "read_columns 0 ?lx = Inr (''0'', ''img1.png'', ''x'')"
    by (simp_all add: read_columns_def getline_def old_format_def to_string_0)
  have a5: "accepted example_corpus 0 ?l5" and ax: "accepted example_corpus 0 ?lx"
    by (simp_all only: accepted_def c5 cx) (simp_all add: example_corpus_def)
  have s5: "strtoull ''5'' = Some 5" and sx: "strtoull ''x'' = None"
    by (simp_all add: strtoull_def isspace_def isdigit_def decimal_value_def digit_value_def ULLONG_MAX_def)
  have dg: "''3'' \<noteq> [] \<and> list_all isdigit ''3'' \<and> (''abc'' = [] \<or> \<not> isdigit (hd ''abc'')) \<and>
      decimal_value ''3'' \<le> ULLONG_MAX"
    and dv: "decimal_value ''3'' = 3"
    by (simp_all add: isdigit_def decimal_value_def digit_value_def ULLONG_MAX_def)
  note t5 = C2_class_id_checked [where corpus = example_corpus and lineIndex = 0 and line = ?l5
      and key = "''0''" and path = "''img1.png''" and cls = "''5''" and flags = example_flags
      and labelDimension = 5 and itemsPerLine = 1 and st = "initial_locals example_object"
      and digits = "''3''" and rest = "''abc''"
      and content = "example_line @ [CHR 0x0A]" and isMultiCrop = False and ?d0.0 = example_object
      and d = example_result]
  note tx = C2_class_id_checked [where corpus = example_corpus and lineIndex = 0 and line = ?lx
      and key = "''0''" and path = "''img1.png''" and cls = "''x''" and flags = example_flags
      and labelDimension = 5 and itemsPerLine = 1 and st = "initial_locals example_object"
      and digits = "''3''" and rest = "''abc''"
      and content = "example_line @ [CHR 0x0A]" and isMultiCrop = False and ?d0.0 = example_object
      and d = example_result]
  from t5 a5 c5 s5 have r5: "process_line example_flags example_corpus 5 1 0 ?l5
       (initial_locals example_object) = Inl (InvalidClassId ''img1.png'' 5 5 0)" by blast
  from tx ax cx sx have rx: "process_line example_flags example_corpus 5 1 0 ?lx
       (initial_locals example_object) = Inl (CannotParseLabelValue 0)" by blast
  from t5 dg have r3: "strtoull (''3'' @ ''abc'') = Some (decimal_value ''3'')" by blast
  from t5 example_build example_fresh
  have "\<forall>s\<in>set (m_imageSequences example_result). m_classId s < 5" by blast
  then have "list_all (\<lambda>s. m_classId s < 5) (m_imageSequences example_result)"
    by (simp add: list_all_iff)
  moreover have "map m_classId (m_imageSequences example_result) = [3]"
    by (simp add: example_result_def)
  ultimately show ?thesis using r5 rx r3 dv example_build by blast
qed

subsection \<open>Key-based lookup\<close>

lemma keys_inv_add_sequence:
  assumes "keys_inv st" and a: "add_sequence flags corpus key path cid st = Inr st'"
  shows "keys_inv st'"
  unfolding keys_inv_def
proof (intro allI impI)
  fix k i
  let ?seqs = "m_imageSequences (this st)"
  assume m: "map_of (m_keyToSequence (this st')) k = Some i"
  note e = add_sequence_effect(2,3) [OF a]
  show "i < length (m_imageSequences (this st')) \<and>
        m_key (m_imageSequences (this st') ! i) = \<lparr>m_sequence = k, m_sample = 0\<rparr>"
  proof (cases "k = GetStringRegistry corpus key")
    case True
    with m have "i = length ?seqs" by (simp add: e update_conv')
    with True show ?thesis by (simp add: e)
  next
    case False
    with m have "map_of (m_keyToSequence (this st)) k = Some i" by (simp add: e update_conv')
    with assms(1) have "i < length ?seqs" "m_key (?seqs ! i) = \<lparr>m_sequence = k, m_sample = 0\<rparr>"
      by (auto simp: keys_inv_def)
    then show ?thesis by (simp add: e nth_append)
  qed
qed

lemma build_keys:
  assumes build: "CreateSequenceDescriptions flags corpus mf labelDimension isMultiCrop d0 = Inr d"
    and fresh: "fresh d0"
  shows "\<forall>k i. map_of (m_keyToSequence d) k = Some i \<longrightarrow>
        i < length (m_imageSequences d) \<and> m_key (m_imageSequences d ! i) = \<lparr>m_sequence = k, m_sample = 0\<rparr>"
proof -
  from build obtain content st where
    run: "process_lines flags corpus labelDimension (if isMultiCrop then 10 else 1) 0 (getlines content) (initial_locals d0) = Inr st"
    and d: "d = (this (add_last_chunk st))
           \<lparr>byteReaders := register_readers (readerSequences (add_last_chunk st))
              (knownReaders (add_last_chunk st)) (byteReaders (this (add_last_chunk st)))\<rparr>"
    by (cases rule: CreateSequenceDescriptions_cases) auto
  have "keys_inv st"
  proof (rule process_lines_preserves [OF run, where P = keys_inv])
    show "keys_inv (initial_locals d0)" using fresh by (simp add: keys_inv_def fresh_def initial_locals_def)
  next
    fix s :: locals assume "keys_inv s" then show "keys_inv (new_chunk_if_necessary s)"
      by (simp add: keys_inv_def new_chunk_if_necessary_def)
  next
    fix s s' :: locals and key path cid
    assume "keys_inv s" "add_sequence flags corpus key path cid s = Inr s'"
    then show "keys_inv s'" by (rule keys_inv_add_sequence)
  qed
  then show ?thesis by (simp add: d add_last_chunk_def keys_inv_def)
qed

text \<open>
  Claim C5. On the object a successful build leaves, \<^verbatim>\<open>GetSequenceDescriptionByKey\<close>
  returns \<open>true\<close> exactly when the sample index of the key is 0 and the sequence key is
  in the key-to-index map; the result is then the description at the mapped index, which
  carries the key that was looked up. In every other case it returns \<open>false\<close> and leaves
  \<open>result\<close> as it was. It never fails.
\<close>

theorem C5_lookup_by_key:
  assumes build: "CreateSequenceDescriptions flags corpus mf labelDimension isMultiCrop d0 = Inr d"
    and fresh: "fresh d0"
  shows "GetSequenceDescriptionByKey d key result =
           (if m_sample key = 0 \<and> m_sequence key \<in> dom (map_of (m_keyToSequence d))
            then Inr (True, SequenceDescription.truncate
                       (m_imageSequences d ! the (map_of (m_keyToSequence d) (m_sequence key))))
            else Inr (False, result)) \<and>
         (\<forall>r. GetSequenceDescriptionByKey d key result = Inr (True, r) \<longrightarrow>
            m_key r = key \<and> (\<exists>s\<in>set (m_imageSequences d). r = SequenceDescription.truncate s))"
proof (cases "m_sample key = 0 \<and> m_sequence key \<in> dom (map_of (m_keyToSequence d))")
  case False
  then show ?thesis
    by (auto simp: GetSequenceDescriptionByKey_def Let_def split: option.splits)
next
  case True
  then obtain i where i: "map_of (m_keyToSequence d) (m_sequence key) = Some i" by auto
  with build_keys [OF build fresh] have il: "i < length (m_imageSequences d)"
    and k: "m_key (m_imageSequences d ! i) = \<lparr>m_sequence = m_sequence key, m_sample = 0\<rparr>" by auto
  from True k have "m_key (m_imageSequences d ! i) = key" by (cases key) simp
  then have kk: "m_key (SequenceDescription.truncate (m_imageSequences d ! i)) = key"
    by (simp add: SequenceDescription.truncate_def)
  have g: "GetSequenceDescriptionByKey d key result
      = Inr (True, SequenceDescription.truncate (m_imageSequences d ! i))"
    using True i il by (simp add: GetSequenceDescriptionByKey_def)
  show ?thesis
    using True i g kk il by auto
qed

text \<open>Claim C5 on the example object: a key that is present, a sample index 1, an unknown key.\<close>

theorem C5_lookup_by_key_witness:
  "GetSequenceDescriptionByKey example_result \<lparr>m_sequence = 1, m_sample = 0\<rparr>
      \<lparr>SequenceDescription.m_id = 9, m_numberOfSamples = 9, m_chunkId = 9, m_key = \<lparr>m_sequence = 9, m_sample = 9\<rparr>\<rparr>
     = Inr (True,
        \<lparr>SequenceDescription.m_id = 0, m_numberOfSamples = 1, m_chunkId = 0, m_key = \<lparr>m_sequence = 1, m_sample = 0\<rparr>\<rparr>) \<and>
   GetSequenceDescriptionByKey example_result \<lparr>m_sequence = 1, m_sample = 1\<rparr>
      \<lparr>SequenceDescription.m_id = 9, m_numberOfSamples = 9, m_chunkId = 9, m_key = \<lparr>m_sequence = 9, m_sample = 9\<rparr>\<rparr>
     = Inr (False,
        \<lparr>SequenceDescription.m_id = 9, m_numberOfSamples = 9, m_chunkId = 9, m_key = \<lparr>m_sequence = 9, m_sample = 9\<rparr>\<rparr>) \<and>
   GetSequenceDescriptionByKey example_result \<lparr>m_sequence = 7, m_sample = 0\<rparr>
      \<lparr>SequenceDescription.m_id = 9, m_numberOfSamples = 9, m_chunkId = 9, m_key = \<lparr>m_sequence = 9, m_sample = 9\<rparr>\<rparr>
     = Inr (False,
        \<lparr>SequenceDescription.m_id = 9, m_numberOfSamples = 9, m_chunkId = 9, m_key = \<lparr>m_sequence = 9, m_sample = 9\<rparr>\<rparr>)"
proof -
  note t = C5_lookup_by_key [OF example_build example_fresh, THEN conjunct1]
  have k: "m_keyToSequence example_result = [(1, 0)]"
    and s: "m_imageSequences example_result = [\<lparr>SequenceDescription.m_id = 0, m_numberOfSamples = 1, m_chunkId = 0,
          m_key = \<lparr>m_sequence = 1, m_sample = 0\<rparr>, m_path = ''img1.png'', m_classId = 3\<rparr>]"
    by (simp_all add: example_result_def)
  have d: "dom (map_of (m_keyToSequence example_result)) = {1}"
    by (simp add: k dom_map_of_conv_image_fst)
  have a: "GetSequenceDescriptionByKey example_result \<lparr>m_sequence = 1, m_sample = 0\<rparr> r
     = Inr (True,
        \<lparr>SequenceDescription.m_id = 0, m_numberOfSamples = 1, m_chunkId = 0, m_key = \<lparr>m_sequence = 1, m_sample = 0\<rparr>\<rparr>)" for r
    unfolding t d by (simp add: k s SequenceDescription.truncate_def)
  have b: "GetSequenceDescriptionByKey example_result \<lparr>m_sequence = 1, m_sample = 1\<rparr> r = Inr (False, r)" for r
    unfolding t d by simp
  have c: "GetSequenceDescriptionByKey example_result \<lparr>m_sequence = 7, m_sample = 0\<rparr> r = Inr (False, r)" for r
    unfolding t d by simp
  show ?thesis
    by (simp only: a b c)
qed

subsection \<open>The index build: replicas in multi-view mode\<close>

lemma process_lines_blocks:
  assumes "process_lines flags corpus labelDimension ipl lineIndex lines st = Inr st'"
  shows "\<exists>blocks. m_imageSequences (this st') = m_imageSequences (this st) @ concat blocks \<and>
           length blocks = accepted_lines corpus lineIndex lines \<and>
           (\<forall>b\<in>set blocks. length b = ipl \<and> uniform_block b)"
  using assms
proof (induction lines arbitrary: st lineIndex)
  case Nil
  then show ?case by simp
next
  case (Cons line rest)
  from Cons.prems obtain st1 where
    s1: "process_line flags corpus labelDimension ipl lineIndex line st = Inr st1" and
    s2: "process_lines flags corpus labelDimension ipl (lineIndex + 1) rest st1 = Inr st'"
    by (auto split: sum.splits)
  from Cons.IH [OF s2] obtain bs where
    bs: "m_imageSequences (this st') = m_imageSequences (this st1) @ concat bs"
      "length bs = accepted_lines corpus (lineIndex + 1) rest"
      "\<forall>b\<in>set bs. length b = ipl \<and> uniform_block b" by blast
  from s1 show ?case
  proof (cases rule: process_line_cases)
    case skip
    with bs show ?thesis by auto
  next
    case (add key path cls cid)
    let ?b = "map (\<lambda>i. \<lparr>SequenceDescription.m_id = curId (new_chunk_if_necessary st) + i, m_numberOfSamples = 1,
                      m_chunkId = currentChunkId (new_chunk_if_necessary st),
                      m_key = \<lparr>m_sequence = GetStringRegistry corpus key, m_sample = 0\<rparr>,
                      m_path = path, m_classId = cid\<rparr>) [0..<ipl]"
    from add_sequences_effect [OF add(6)]
    have e: "m_imageSequences (this st1) = m_imageSequences (this st) @ ?b" by simp
    have u: "length ?b = ipl \<and> uniform_block ?b" by (auto simp: uniform_block_def)
    have acc: "accepted corpus lineIndex line" using add(1,2) by (simp add: accepted_def)
    have "m_imageSequences (this st') = m_imageSequences (this st) @ concat (?b # bs)"
      using bs(1) e by simp
    moreover have "length (?b # bs) = accepted_lines corpus lineIndex (line # rest)"
      using bs(2) acc by simp
    moreover have "\<forall>b\<in>set (?b # bs). length b = ipl \<and> uniform_block b"
      using bs(3) u by simp
    ultimately show ?thesis by blast
  qed
qed

lemma nth_concat_blocks:
  assumes "\<forall>b\<in>set blocks. length b = R" and "j < length blocks" and "r < R"
  shows "concat blocks ! (R * j + r) = blocks ! j ! r"
  using assms
proof (induction blocks arbitrary: j)
  case Nil
  then show ?case by simp
next
  case (Cons b bs)
  from Cons.prems(1) have lb: "length b = R" by simp
  show ?case
  proof (cases j)
    case 0
    then show ?thesis using lb Cons.prems(3) by (simp add: nth_append)
  next
    case (Suc j')
    with Cons.prems have "concat bs ! (R * j' + r) = bs ! j' ! r"
      by (intro Cons.IH) simp_all
    moreover have "(b @ concat bs) ! (R * Suc j' + r) = concat bs ! (R * j' + r)"
      using lb by (simp add: nth_append)
    ultimately show ?thesis using Suc by simp
  qed
qed

lemma length_concat_blocks:
  assumes "\<forall>b\<in>set blocks. length b = R"
  shows "length (concat blocks) = R * length blocks"
  using assms by (induction blocks) simp_all

text \<open>
  Claim C4. In multi-view mode (\<open>itemsPerLine = 10\<close>) a successful build generates ten
  times as many sequences as there are accepted lines; the ten replicas of the \<open>j\<close>-th
  accepted line have the ids \<open>10 j, ..., 10 j + 9\<close> and all carry the chunk id (and the
  path, class id and key) of the first of them.
\<close>

theorem C4_multi_view_replicas:
  assumes build: "CreateSequenceDescriptions flags corpus (Some content) labelDimension True d0 = Inr d"
    and fresh: "fresh d0"
  shows "length (m_imageSequences d) = 10 * accepted_lines corpus 0 (getlines content) \<and>
    (\<forall>j<accepted_lines corpus 0 (getlines content). \<forall>r<10.
       SequenceDescription.m_id (m_imageSequences d ! (10 * j + r)) = 10 * j + r \<and>
       m_chunkId (m_imageSequences d ! (10 * j + r)) = m_chunkId (m_imageSequences d ! (10 * j)) \<and>
       m_path (m_imageSequences d ! (10 * j + r)) = m_path (m_imageSequences d ! (10 * j)) \<and>
       m_classId (m_imageSequences d ! (10 * j + r)) = m_classId (m_imageSequences d ! (10 * j)) \<and>
       m_key (m_imageSequences d ! (10 * j + r)) = m_key (m_imageSequences d ! (10 * j)))"
proof -
  from build obtain st where
    run: "process_lines flags corpus labelDimension 10 0 (getlines content) (initial_locals d0) = Inr st"
    and d: "d = (this (add_last_chunk st))
           \<lparr>byteReaders := register_readers (readerSequences (add_last_chunk st))
              (knownReaders (add_last_chunk st)) (byteReaders (this (add_last_chunk st)))\<rparr>"
    by (cases rule: CreateSequenceDescriptions_cases) auto
  have sq: "m_imageSequences d = m_imageSequences (this st)" by (simp add: d add_last_chunk_def)
  from process_lines_blocks [OF run] fresh obtain blocks where
    b: "m_imageSequences (this st) = concat blocks"
      "length blocks = accepted_lines corpus 0 (getlines content)"
      "\<forall>b\<in>set blocks. length b = 10 \<and> uniform_block b"
    by (auto simp: fresh_def initial_locals_def)
  from b(3) have len: "\<forall>b\<in>set blocks. length b = 10" by simp
  have n: "length (m_imageSequences d) = 10 * accepted_lines corpus 0 (getlines content)"
    using length_concat_blocks [OF len] b(1,2) sq by simp
  have inv: "layout_inv 10 (511 + 10) st"
    by (rule layout_inv_process_lines [OF layout_inv_initial [OF fresh] run])
  then have ids: "\<forall>i<length (m_imageSequences d). SequenceDescription.m_id (m_imageSequences d ! i) = i"
    by (simp add: layout_inv_def in_chunk_def sq)
  have "SequenceDescription.m_id (m_imageSequences d ! (10 * j + r)) = 10 * j + r \<and>
       m_chunkId (m_imageSequences d ! (10 * j + r)) = m_chunkId (m_imageSequences d ! (10 * j)) \<and>
       m_path (m_imageSequences d ! (10 * j + r)) = m_path (m_imageSequences d ! (10 * j)) \<and>
       m_classId (m_imageSequences d ! (10 * j + r)) = m_classId (m_imageSequences d ! (10 * j)) \<and>
       m_key (m_imageSequences d ! (10 * j + r)) = m_key (m_imageSequences d ! (10 * j))"
    if j: "j < accepted_lines corpus 0 (getlines content)" and r: "r < 10" for j r
  proof -
    from j b(2) have jl: "j < length blocks" by simp
    have x: "m_imageSequences d ! (10 * j + r) = blocks ! j ! r"
      using nth_concat_blocks [OF len jl r] by (simp add: sq b(1))
    have y: "m_imageSequences d ! (10 * j) = blocks ! j ! 0"
      using nth_concat_blocks [OF len jl, of 0] by (simp add: sq b(1))
    from jl b(3) have bl: "length (blocks ! j) = 10" and u: "uniform_block (blocks ! j)" by simp_all
    from bl r have "blocks ! j ! r \<in> set (blocks ! j)" "blocks ! j ! 0 \<in> set (blocks ! j)" by simp_all
    with u have "m_chunkId (blocks ! j ! r) = m_chunkId (blocks ! j ! 0) \<and>
       m_path (blocks ! j ! r) = m_path (blocks ! j ! 0) \<and>
       m_classId (blocks ! j ! r) = m_classId (blocks ! j ! 0) \<and>
       m_key (blocks ! j ! r) = m_key (blocks ! j ! 0)"
      unfolding uniform_block_def by blast
    moreover have "10 * j + r < length (m_imageSequences d)" using j r n by simp
    with ids have "SequenceDescription.m_id (m_imageSequences d ! (10 * j + r)) = 10 * j + r" by blast
    ultimately show ?thesis by (simp add: x y)
  qed
  with n show ?thesis by blast
qed


text \<open>
  Claim C4 at a file of 60 example lines: 600 sequences, and the replicas 510 to 519 of
  one line, which straddle the count of 512, share a chunk.
\<close>

theorem C4_multi_view_replicas_witness:
  "\<exists>d. CreateSequenceDescriptions example_flags example_corpus
          (Some (concat (replicate 60 (example_line @ [CHR 0x0A])))) 5 True example_object = Inr d \<and>
       length (m_imageSequences d) = 600 \<and>
       SequenceDescription.m_id (m_imageSequences d ! 519) = 519 \<and>
       m_chunkId (m_imageSequences d ! 519) = m_chunkId (m_imageSequences d ! 510)"
proof -
  let ?content = "concat (replicate 60 (example_line @ [CHR 0x0A]))"
  have lines: "getlines ?content = replicate 60 example_line"
    by (rule getlines_replicate) (simp_all add: example_line_def)
  have acc: "accepted_lines example_corpus 0 (getlines ?content) = 60"
    unfolding lines
    by (rule accepted_lines_replicate) (simp add: accepted_def example_columns example_corpus_def)
  have "\<exists>st. process_lines example_flags example_corpus 5 10 0 (replicate 60 example_line)
           (initial_locals example_object) = Inr st"
    by (rule process_lines_replicate [where path = "''img1.png''" and cls = "''3''" and cid = 3])
      (simp_all add: example_columns strtoull_3 example_corpus_def example_flags_def initial_locals_def)
  then obtain d where
    d: "CreateSequenceDescriptions example_flags example_corpus (Some ?content) 5 True example_object = Inr d"
    by (auto simp: CreateSequenceDescriptions_def lines Let_def)
  note t = C4_multi_view_replicas [OF d example_fresh]
  from t acc have n: "length (m_imageSequences d) = 600" by simp
  from t acc have "\<forall>j<60. \<forall>r<10.
       SequenceDescription.m_id (m_imageSequences d ! (10 * j + r)) = 10 * j + r \<and>
       m_chunkId (m_imageSequences d ! (10 * j + r)) = m_chunkId (m_imageSequences d ! (10 * j))"
    by simp
  then have "(51::nat) < 60 \<longrightarrow> (9::nat) < 10 \<longrightarrow>
       SequenceDescription.m_id (m_imageSequences d ! (10 * 51 + 9)) = 10 * 51 + 9 \<and>
       m_chunkId (m_imageSequences d ! (10 * 51 + 9)) = m_chunkId (m_imageSequences d ! (10 * 51))"
    by blast
  then have "SequenceDescription.m_id (m_imageSequences d ! 519) = 519 \<and>
       m_chunkId (m_imageSequences d ! 519) = m_chunkId (m_imageSequences d ! 510)" by simp
  with d n show ?thesis by blast
qed


subsection \<open>Decoding a sequence\<close>



lemma shared_from_this_owned:
  assumes "self < length h" and "h ! self = Some sc" and "0 < use_count sc"
  shows "shared_from_this h self = Inr (h[self := Some (sc\<lparr>use_count := use_count sc + 1\<rparr>)])"
  using assms by (simp add: shared_from_this_def)






lemma example_chunk:
  assumes "m_chunks d = [\<lparr>ImageChunkDescription.m_id = 0, m_numberOfSamples = 1, m_numberOfSequences = 1, m_startIndex = 0\<rparr>]"
    and "m_imageSequences d = [\<lparr>SequenceDescription.m_id = 0, m_numberOfSamples = 1, m_chunkId = 0,
          m_key = \<lparr>m_sequence = 1, m_sample = 0\<rparr>, m_path = ''img1.png'', m_classId = 3\<rparr>]"
    and "m_readers d = []" and "file_mapping env ''img1.png'' = Some [1, 2, 3]"
  shows "GetChunk example_flags env d [] 0 = Inr (example_heap, 0)"
proof -
  show ?thesis
    using assms
    by (simp add: GetChunk_def ImageChunk_new_def ReadImage_def FileByteReader_Read_def make_shared_def
        assert_fails_def example_heap_def example_flags_def)
qed



lemma example_result_fields:
  "m_chunks example_result = [\<lparr>ImageChunkDescription.m_id = 0, m_numberOfSamples = 1, m_numberOfSequences = 1, m_startIndex = 0\<rparr>]"
  "m_imageSequences example_result = [\<lparr>SequenceDescription.m_id = 0, m_numberOfSamples = 1, m_chunkId = 0,
          m_key = \<lparr>m_sequence = 1, m_sample = 0\<rparr>, m_path = ''img1.png'', m_classId = 3\<rparr>]"
  "m_readers example_result = []" "\<not> m_grayscale example_result"
  "m_featureElementType example_result = tfloat" "m_labelElementType example_result = tfloat"
  by (simp_all add: example_result_def example_object_def)









subsection \<open>The element type of a sample\<close>

lemma add_sequence_frame:
  assumes "add_sequence flags corpus key path cid st = Inr st'"
  shows "m_streams (this st') = m_streams (this st) \<and>
         m_labelGenerator (this st') = m_labelGenerator (this st) \<and>
         m_featureElementType (this st') = m_featureElementType (this st) \<and>
         m_labelElementType (this st') = m_labelElementType (this st) \<and>
         m_grayscale (this st') = m_grayscale (this st)"
  using assms
  by (auto simp: add_sequence_def Let_def RegisterByteReader_def split: sum.splits if_splits option.splits)

lemma CreateSequenceDescriptions_frame:
  assumes build: "CreateSequenceDescriptions flags corpus mf labelDimension isMultiCrop d0 = Inr d"
  shows "m_streams d = m_streams d0 \<and>
         m_labelGenerator d = m_labelGenerator d0 \<and>
         m_featureElementType d = m_featureElementType d0 \<and>
         m_labelElementType d = m_labelElementType d0 \<and>
         m_grayscale d = m_grayscale d0"
proof -
  let ?P = "\<lambda>st :: locals. m_streams (this st) = m_streams d0 \<and>
         m_labelGenerator (this st) = m_labelGenerator d0 \<and>
         m_featureElementType (this st) = m_featureElementType d0 \<and>
         m_labelElementType (this st) = m_labelElementType d0 \<and>
         m_grayscale (this st) = m_grayscale d0"
  from build obtain content st where
    run: "process_lines flags corpus labelDimension (if isMultiCrop then 10 else 1) 0 (getlines content) (initial_locals d0) = Inr st"
    and d: "d = (this (add_last_chunk st))
           \<lparr>byteReaders := register_readers (readerSequences (add_last_chunk st))
              (knownReaders (add_last_chunk st)) (byteReaders (this (add_last_chunk st)))\<rparr>"
    by (cases rule: CreateSequenceDescriptions_cases) auto
  have "?P st"
  proof (rule process_lines_preserves [OF run, where P = ?P])
    show "?P (initial_locals d0)" by (simp add: initial_locals_def)
  next
    fix s :: locals assume "?P s" then show "?P (new_chunk_if_necessary s)"
      by (simp add: new_chunk_if_necessary_def)
  next
    fix s s' :: locals and key path cid
    assume "?P s" "add_sequence flags corpus key path cid s = Inr s'"
    then show "?P s'" using add_sequence_frame by metis
  qed
  then show ?thesis by (simp add: d add_last_chunk_def)
qed

text \<open>
  The compositional constructor copies the element type of the feature stream into
  \<^verbatim>\<open>m_featureElementType\<close> after it has set it to \<open>tend\<close>; the legacy constructor copies it
  before.
\<close>

lemma compositional_constructor_feature_type:
  assumes "ImageDataDeserializer_new flags IndexType_max corpus config = Inr d"
  shows "m_featureElementType d = tend"
  using assms
  by (auto simp: ImageDataDeserializer_new_def Let_def split: if_splits sum.splits
      dest!: CreateSequenceDescriptions_frame)

lemma legacy_constructor_feature_type:
  assumes "ImageDataDeserializer_legacy flags IndexType_max unassigned default_corpus configHelper = Inr d"
  shows "m_featureElementType d =
      StreamDescription.m_elementType (GetStreams configHelper ! GetFeatureStreamId configHelper)"
  using assms
  by (auto simp: ImageDataDeserializer_legacy_def Let_def nth_list_update
      split: if_splits sum.splits option.splits dest!: CreateSequenceDescriptions_frame)







subsection \<open>Where a bad path is found\<close>

lemma RegisterByteReader_cases:
  assumes "RegisterByteReader flags seqId path (t, kr, rs) = Inr (t', kr', rs')"
  obtains (plain) "CHR ''@'' \<notin> set path" and "NDEBUG flags \<or> path \<noteq> []" and "t' = t" and "kr' = kr" and "rs' = rs"
    | (container) reader where "CHR ''@'' \<in> set path" and "USE_ZIP flags"
        and "m_readers t' = AList.update seqId reader (m_readers t)"
  using assms
  by (auto simp: RegisterByteReader_def Let_def assert_fails_def split: if_splits option.splits)

lemma readers_inv_add_sequence:
  assumes inv: "readers_inv flags st" and a: "add_sequence flags corpus key path cid st = Inr st'"
  shows "readers_inv flags st'"
proof -
  let ?seqs = "m_imageSequences (this st)"
  let ?desc = "\<lparr>SequenceDescription.m_id = curId st, m_numberOfSamples = 1, m_chunkId = currentChunkId st,
            m_key = \<lparr>m_sequence = GetStringRegistry corpus key, m_sample = 0\<rparr>, m_path = path, m_classId = cid\<rparr>"
  let ?t1 = "(this st)\<lparr>m_keyToSequence :=
               AList.update (GetStringRegistry corpus key) (length ?seqs) (m_keyToSequence (this st)),
             m_imageSequences := ?seqs @ [?desc]\<rparr>"
  note eff = add_sequence_effect [OF a]
  from a obtain t' kr' rs' where
    r: "RegisterByteReader flags (curId st) path (?t1, knownReaders st, readerSequences st) = Inr (t', kr', rs')"
    and t': "this st' = t'"
    by (auto simp: add_sequence_def Let_def split: sum.splits)
  from inv have i: "curId st = length ?seqs"
    "NDEBUG flags \<or> (\<forall>s\<in>set ?seqs. m_path s \<noteq> [])"
    "\<forall>i r. map_of (m_readers (this st)) i = Some r \<longrightarrow> i < length ?seqs \<and> CHR ''@'' \<in> set (m_path (?seqs ! i))"
    "\<not> USE_ZIP flags \<longrightarrow> (\<forall>s\<in>set ?seqs. CHR ''@'' \<notin> set (m_path s))"
    by (simp_all add: readers_inv_def)
  have old: "i < length ?seqs \<and> CHR ''@'' \<in> set (m_path ((?seqs @ [?desc]) ! i))"
    if "map_of (m_readers (this st)) i = Some r" for i r
    using i(3) that by (auto simp: nth_append)
  from r show ?thesis
  proof (cases rule: RegisterByteReader_cases)
    case plain
    then have m: "m_readers (this st') = m_readers (this st)" by (simp add: t')
    show ?thesis
      unfolding readers_inv_def eff(2) eff(4) m
      using i plain(1,2) old by (auto simp: less_Suc_eq)
  next
    case (container reader)
    then have m: "m_readers (this st') = AList.update (curId st) reader (m_readers (this st))"
      by (simp add: t')
    have new: "i < length (?seqs @ [?desc]) \<and> CHR ''@'' \<in> set (m_path ((?seqs @ [?desc]) ! i))"
      if "map_of (AList.update (curId st) reader (m_readers (this st))) i = Some r" for i r
    proof (cases "i = curId st")
      case True
      then show ?thesis using container(1) i(1) by simp
    next
      case False
      with that have "map_of (m_readers (this st)) i = Some r" by (simp add: update_conv')
      from old [OF this] show ?thesis by simp
    qed
    have ne: "path \<noteq> []" using container(1) by auto
    show ?thesis
      unfolding readers_inv_def eff(2) eff(4) m
      using i(1,2,4) container(2) ne new by auto
  qed
qed

lemma build_readers:
  assumes build: "CreateSequenceDescriptions flags corpus mf labelDimension isMultiCrop d0 = Inr d"
    and fresh: "fresh d0"
  shows "(NDEBUG flags \<or> (\<forall>s\<in>set (m_imageSequences d). m_path s \<noteq> [])) \<and>
      (\<forall>i r. map_of (m_readers d) i = Some r \<longrightarrow>
         i < length (m_imageSequences d) \<and> CHR ''@'' \<in> set (m_path (m_imageSequences d ! i))) \<and>
      (\<not> USE_ZIP flags \<longrightarrow> (\<forall>s\<in>set (m_imageSequences d). CHR ''@'' \<notin> set (m_path s)))"
proof -
  from build obtain content st where
    run: "process_lines flags corpus labelDimension (if isMultiCrop then 10 else 1) 0 (getlines content) (initial_locals d0) = Inr st"
    and d: "d = (this (add_last_chunk st))
           \<lparr>byteReaders := register_readers (readerSequences (add_last_chunk st))
              (knownReaders (add_last_chunk st)) (byteReaders (this (add_last_chunk st)))\<rparr>"
    by (cases rule: CreateSequenceDescriptions_cases) auto
  have "readers_inv flags st"
  proof (rule process_lines_preserves [OF run, where P = "readers_inv flags"])
    show "readers_inv flags (initial_locals d0)"
      using fresh by (simp add: readers_inv_def fresh_def initial_locals_def)
  next
    fix s :: locals assume "readers_inv flags s" then show "readers_inv flags (new_chunk_if_necessary s)"
      by (simp add: readers_inv_def new_chunk_if_necessary_def)
  next
    fix s s' :: locals and key path cid
    assume "readers_inv flags s" "add_sequence flags corpus key path cid s = Inr s'"
    then show "readers_inv flags s'" by (rule readers_inv_add_sequence)
  qed
  then show ?thesis by (simp add: d add_last_chunk_def readers_inv_def)
qed

lemma build_layout:
  assumes build: "CreateSequenceDescriptions flags corpus mf labelDimension isMultiCrop d0 = Inr d"
    and fresh: "fresh d0"
  shows "tiles 0 (m_chunks d) (length (m_imageSequences d))"
    and "\<forall>k<length (m_chunks d).
           ImageChunkDescription.m_numberOfSamples (m_chunks d ! k) = m_numberOfSequences (m_chunks d ! k)"
    and "\<forall>i<length (m_imageSequences d). SequenceDescription.m_id (m_imageSequences d ! i) = i"
proof -
  from build obtain content st where
    run: "process_lines flags corpus labelDimension (if isMultiCrop then 10 else 1) 0 (getlines content) (initial_locals d0) = Inr st"
    and d: "d = (this (add_last_chunk st))
           \<lparr>byteReaders := register_readers (readerSequences (add_last_chunk st))
              (knownReaders (add_last_chunk st)) (byteReaders (this (add_last_chunk st)))\<rparr>"
    by (cases rule: CreateSequenceDescriptions_cases) auto
  have inv: "layout_inv (if isMultiCrop then 10 else 1) (511 + (if isMultiCrop then 10 else 1)) st"
    by (rule layout_inv_process_lines [OF layout_inv_initial [OF fresh] run])
  note fin = final_layout [OF inv]
  show "tiles 0 (m_chunks d) (length (m_imageSequences d))" using fin(1) by (simp add: d)
  show "\<forall>k<length (m_chunks d).
           ImageChunkDescription.m_numberOfSamples (m_chunks d ! k) = m_numberOfSequences (m_chunks d ! k)"
    using fin(2) by (simp add: d)
  show "\<forall>i<length (m_imageSequences d). SequenceDescription.m_id (m_imageSequences d ! i) = i"
    using fin(4) by (simp add: d in_chunk_def)
qed

lemma tiles_within:
  assumes "tiles a cs b" and "k < length cs"
  shows "a \<le> m_startIndex (cs ! k) \<and> m_startIndex (cs ! k) + m_numberOfSequences (cs ! k) \<le> b"
  using assms
proof (induction cs arbitrary: a k)
  case Nil
  then show ?case by simp
next
  case (Cons c cs)
  have le: "a' \<le> b" if "tiles a' xs b" for a' xs
    using that by (induction xs arbitrary: a') force+
  show ?case
  proof (cases k)
    case 0
    with Cons.prems le [of "a + m_numberOfSequences c" cs] show ?thesis by simp
  next
    case (Suc k')
    with Cons.prems Cons.IH [of "a + m_numberOfSequences c" k'] show ?thesis by force
  qed
qed

lemma read_chunk_images_fails:
  "(\<exists>e. read_chunk_images flags env d c is acc = Inl e) \<longleftrightarrow>
   (\<exists>i\<in>set is. length (m_imageSequences d) \<le> m_startIndex c + i \<or>
      (\<exists>e. ReadImage flags env d (SequenceDescription.m_id (m_imageSequences d ! (m_startIndex c + i)))
              (m_path (m_imageSequences d ! (m_startIndex c + i))) = Inl e))"
proof (induction "is" arbitrary: acc)
  case Nil
  show ?case by simp
next
  case (Cons i "is")
  show ?case
    by (auto simp: Let_def Cons.IH split: sum.splits)
qed

lemma add_sequences_no_zip:
  assumes "\<not> USE_ZIP flags" and "CHR ''@'' \<in> set path" and "0 < n"
  shows "add_sequences flags corpus key path cid n st = Inl BuiltWithoutZipSupport"
proof -
  from assms(2) have "path \<noteq> []" by auto
  with assms(1,2) have "add_sequence flags corpus key path cid st = Inl BuiltWithoutZipSupport"
    by (simp add: add_sequence_def Let_def RegisterByteReader_def assert_fails_def)
  with assms(3) show ?thesis by (cases n) simp_all
qed

lemma process_lines_accepted_plain:
  assumes run: "process_lines flags corpus labelDimension ipl lineIndex lines st = Inr st'"
    and nz: "\<not> USE_ZIP flags" and ipl: "0 < ipl"
    and j: "j < length lines"
    and rc: "read_columns (lineIndex + j) (lines ! j) = Inr (key, path, cls)"
    and inc: "IsIncluded corpus key"
  shows "CHR ''@'' \<notin> set path"
  using run j rc
proof (induction lines arbitrary: st lineIndex j)
  case Nil
  then show ?case by simp
next
  case (Cons line rest)
  from Cons.prems(1) obtain st1 where
    s1: "process_line flags corpus labelDimension ipl lineIndex line st = Inr st1" and
    s2: "process_lines flags corpus labelDimension ipl (lineIndex + 1) rest st1 = Inr st'"
    by (auto split: sum.splits)
  show ?case
  proof (cases j)
    case 0
    from s1 show ?thesis
    proof (cases rule: process_line_cases)
      case skip
      with 0 Cons.prems(3) inc show ?thesis by (simp add: accepted_def)
    next
      case (add key' path' cls' cid)
      with 0 Cons.prems(3) have p: "path' = path" and k: "key' = key" by simp_all
      show ?thesis
      proof
        assume "CHR ''@'' \<in> set path"
        from add_sequences_no_zip [OF nz this ipl] add(6) p show False by simp
      qed
    qed
  next
    case (Suc j')
    with Cons.prems(2,3) Cons.IH [OF s2, of j'] show ?thesis by simp
  qed
qed

lemma GetChunk_fails:
  assumes build: "CreateSequenceDescriptions flags corpus mf labelDimension isMultiCrop d0 = Inr d"
    and fresh: "fresh d0" and k: "k < length (m_chunks d)"
  shows "(\<exists>e. GetChunk flags env d h k = Inl e) \<longleftrightarrow>
      (\<exists>i. m_startIndex (m_chunks d ! k) \<le> i \<and>
           i < m_startIndex (m_chunks d ! k) + m_numberOfSequences (m_chunks d ! k) \<and>
           (\<exists>e. ReadImage flags env d i (m_path (m_imageSequences d ! i)) = Inl e))"
proof -
  let ?c = "m_chunks d ! k" and ?seqs = "m_imageSequences d"
  note lay = build_layout [OF build fresh]
  from tiles_within [OF lay(1) k] have w: "m_startIndex ?c + m_numberOfSequences ?c \<le> length ?seqs" by simp
  from lay(2) k have ns: "ImageChunkDescription.m_numberOfSamples ?c = m_numberOfSequences ?c" by simp
  have "(\<exists>e. GetChunk flags env d h k = Inl e) \<longleftrightarrow>
      (\<exists>e. read_chunk_images flags env d ?c [0..<m_numberOfSequences ?c] [] = Inl e)"
    using k by (auto simp: GetChunk_def ImageChunk_new_def Let_def ns make_shared_def split: sum.splits)
  also have "\<dots> \<longleftrightarrow> (\<exists>i\<in>set [0..<m_numberOfSequences ?c]. length ?seqs \<le> m_startIndex ?c + i \<or>
      (\<exists>e. ReadImage flags env d (SequenceDescription.m_id (?seqs ! (m_startIndex ?c + i)))
              (m_path (?seqs ! (m_startIndex ?c + i))) = Inl e))"
    by (rule read_chunk_images_fails)
  also have "\<dots> \<longleftrightarrow> (\<exists>i<m_numberOfSequences ?c.
      (\<exists>e. ReadImage flags env d (m_startIndex ?c + i) (m_path (?seqs ! (m_startIndex ?c + i))) = Inl e))"
  proof -
    have "SequenceDescription.m_id (?seqs ! (m_startIndex ?c + i)) = m_startIndex ?c + i
        \<and> \<not> length ?seqs \<le> m_startIndex ?c + i" if "i < m_numberOfSequences ?c" for i
      using that w lay(3) by simp
    then show ?thesis by auto
  qed
  also have "\<dots> \<longleftrightarrow> (\<exists>i. m_startIndex ?c \<le> i \<and> i < m_startIndex ?c + m_numberOfSequences ?c \<and>
           (\<exists>e. ReadImage flags env d i (m_path (?seqs ! i)) = Inl e))"
  proof
    assume "\<exists>i<m_numberOfSequences ?c.
      (\<exists>e. ReadImage flags env d (m_startIndex ?c + i) (m_path (?seqs ! (m_startIndex ?c + i))) = Inl e)"
    then obtain i where "i < m_numberOfSequences ?c"
      "\<exists>e. ReadImage flags env d (m_startIndex ?c + i) (m_path (?seqs ! (m_startIndex ?c + i))) = Inl e"
      by blast
    then show "\<exists>i. m_startIndex ?c \<le> i \<and> i < m_startIndex ?c + m_numberOfSequences ?c \<and>
           (\<exists>e. ReadImage flags env d i (m_path (?seqs ! i)) = Inl e)"
      by (intro exI [of _ "m_startIndex ?c + i"]) simp
  next
    assume "\<exists>i. m_startIndex ?c \<le> i \<and> i < m_startIndex ?c + m_numberOfSequences ?c \<and>
           (\<exists>e. ReadImage flags env d i (m_path (?seqs ! i)) = Inl e)"
    then obtain i where i: "m_startIndex ?c \<le> i" "i < m_startIndex ?c + m_numberOfSequences ?c"
      "\<exists>e. ReadImage flags env d i (m_path (?seqs ! i)) = Inl e" by blast
    then show "\<exists>i<m_numberOfSequences ?c.
      (\<exists>e. ReadImage flags env d (m_startIndex ?c + i) (m_path (?seqs ! (m_startIndex ?c + i))) = Inl e)"
      by (intro exI [of _ "i - m_startIndex ?c"]) simp
  qed
  finally show ?thesis .
qed

lemma ReadImage_plain:
  assumes build: "CreateSequenceDescriptions flags corpus mf labelDimension isMultiCrop d0 = Inr d"
    and fresh: "fresh d0" and i: "i < length (m_imageSequences d)"
    and plain: "CHR ''@'' \<notin> set (m_path (m_imageSequences d ! i))"
  shows "ReadImage flags env d i (m_path (m_imageSequences d ! i)) =
           (case file_mapping env (m_path (m_imageSequences d ! i)) of
              None \<Rightarrow> Inl (FileMappingFailed (m_path (m_imageSequences d ! i)))
            | Some b \<Rightarrow> Inr b)"
proof -
  note r = build_readers [OF build fresh]
  from r i have a: "\<not> assert_fails flags (m_path (m_imageSequences d ! i) \<noteq> [])"
    by (auto simp: assert_fails_def)
  from r plain have "map_of (m_readers d) i = None"
    by (cases "map_of (m_readers d) i") auto
  with a show ?thesis
    by (simp add: ReadImage_def FileByteReader_Read_def)
qed

text \<open>
  Claim C8, amended. After a successful build, loading a chunk fails exactly when the
  read of one of the sequences in the chunk's range fails, whatever the environment is:
  the build has not looked at the files. The read of a sequence whose path has no \<^verbatim>\<open>@\<close>
  is the file mapping of its path, and fails exactly when the file cannot be mapped.
  Unavailable container support, in contrast, is found by the build. Without
  \<^verbatim>\<open>USE_ZIP\<close> the loop body fails with "built without zip container support" on an
  accepted line whose path has an \<^verbatim>\<open>@\<close>, once the class id of the line has passed its
  checks and the ids of the line are within the range of chunk ids. So after a
  successful build no accepted line of the file and no stored path has an \<^verbatim>\<open>@\<close>.
\<close>

theorem C8_paths_checked_at_load_container_support_at_build:
  "(CreateSequenceDescriptions flags corpus (Some content) labelDimension isMultiCrop d0 = Inr d \<and> fresh d0 \<longrightarrow>
      (\<not> USE_ZIP flags \<longrightarrow>
         (\<forall>s\<in>set (m_imageSequences d). CHR ''@'' \<notin> set (m_path s)) \<and>
         (\<forall>i<length (getlines content). \<forall>key path cls.
            read_columns i (getlines content ! i) = Inr (key, path, cls) \<and> IsIncluded corpus key \<longrightarrow>
            CHR ''@'' \<notin> set path)) \<and>
      (\<forall>k<length (m_chunks d). \<forall>env h.
         (\<exists>e. GetChunk flags env d h k = Inl e) \<longleftrightarrow>
         (\<exists>i. m_startIndex (m_chunks d ! k) \<le> i \<and>
              i < m_startIndex (m_chunks d ! k) + m_numberOfSequences (m_chunks d ! k) \<and>
              (\<exists>e. ReadImage flags env d i (m_path (m_imageSequences d ! i)) = Inl e))) \<and>
      (\<forall>i<length (m_imageSequences d). \<forall>env.
         CHR ''@'' \<notin> set (m_path (m_imageSequences d ! i)) \<longrightarrow>
         ReadImage flags env d i (m_path (m_imageSequences d ! i)) =
           (case file_mapping env (m_path (m_imageSequences d ! i)) of
              None \<Rightarrow> Inl (FileMappingFailed (m_path (m_imageSequences d ! i)))
            | Some b \<Rightarrow> Inr b))) \<and>
   (\<not> USE_ZIP flags \<and> read_columns lineIndex line = Inr (key, path, cls) \<and> IsIncluded corpus key \<and>
    strtoull cls = Some cid \<and> cid < labelDimension \<and> curId st + itemsPerLine \<le> CHUNKID_MAX flags \<and>
    0 < itemsPerLine \<and> CHR ''@'' \<in> set path \<longrightarrow>
      process_line flags corpus labelDimension itemsPerLine lineIndex line st = Inl BuiltWithoutZipSupport)"
proof (intro conjI impI)
  assume a: "CreateSequenceDescriptions flags corpus (Some content) labelDimension isMultiCrop d0 = Inr d \<and> fresh d0"
  then have b: "CreateSequenceDescriptions flags corpus (Some content) labelDimension isMultiCrop d0 = Inr d"
    and f: "fresh d0" by simp_all
  from b obtain st where
    run: "process_lines flags corpus labelDimension (if isMultiCrop then 10 else 1) 0 (getlines content) (initial_locals d0) = Inr st"
    by (cases rule: CreateSequenceDescriptions_cases) auto
  {
    assume nz: "\<not> USE_ZIP flags"
    with build_readers [OF b f] show "\<forall>s\<in>set (m_imageSequences d). CHR ''@'' \<notin> set (m_path s)" by blast
    have ipl: "0 < (if isMultiCrop then 10 else 1 :: nat)" by simp
    show "\<forall>i<length (getlines content). \<forall>key path cls.
            read_columns i (getlines content ! i) = Inr (key, path, cls) \<and> IsIncluded corpus key \<longrightarrow>
            CHR ''@'' \<notin> set path"
      using process_lines_accepted_plain [OF run nz ipl] by simp
  }
  show "\<forall>k<length (m_chunks d). \<forall>env h.
         (\<exists>e. GetChunk flags env d h k = Inl e) \<longleftrightarrow>
         (\<exists>i. m_startIndex (m_chunks d ! k) \<le> i \<and>
              i < m_startIndex (m_chunks d ! k) + m_numberOfSequences (m_chunks d ! k) \<and>
              (\<exists>e. ReadImage flags env d i (m_path (m_imageSequences d ! i)) = Inl e))"
    using GetChunk_fails [OF b f] by blast
  show "\<forall>i<length (m_imageSequences d). \<forall>env.
         CHR ''@'' \<notin> set (m_path (m_imageSequences d ! i)) \<longrightarrow>
         ReadImage flags env d i (m_path (m_imageSequences d ! i)) =
           (case file_mapping env (m_path (m_imageSequences d ! i)) of
              None \<Rightarrow> Inl (FileMappingFailed (m_path (m_imageSequences d ! i)))
            | Some b \<Rightarrow> Inr b)"
    using ReadImage_plain [OF b f] by blast
next
  assume "\<not> USE_ZIP flags \<and> read_columns lineIndex line = Inr (key, path, cls) \<and> IsIncluded corpus key \<and>
    strtoull cls = Some cid \<and> cid < labelDimension \<and> curId st + itemsPerLine \<le> CHUNKID_MAX flags \<and>
    0 < itemsPerLine \<and> CHR ''@'' \<in> set path"
  then show "process_line flags corpus labelDimension itemsPerLine lineIndex line st = Inl BuiltWithoutZipSupport"
    by (simp add: process_line_def add_sequences_no_zip)
qed

lemma example_container_columns:
  "read_columns i example_container_line = Inr (to_string i, example_container_path, ''3'')"
  by (simp add: example_container_line_def example_container_path_def read_columns_def getline_def
      old_format_def)

lemma example_container_getlines:
  "getlines (example_container_line @ [CHR 0x0A]) = [example_container_line]"
  using getlines_replicate [of example_container_line 1]
  by (simp add: example_container_line_def example_container_path_def)

lemma example_container_path_at: "CHR ''@'' \<in> set example_container_path"
  by (simp add: example_container_path_def)

text \<open>
  Claim C8 as stated fails: in a build without container support, a mapping file whose
  only line has a container-style path makes the index build fail; no chunk is ever
  loaded.
\<close>

theorem C8_container_support_checked_at_build_counterexample:
  "CreateSequenceDescriptions example_flags example_corpus
     (Some (example_container_line @ [CHR 0x0A])) 5 False example_object = Inl BuiltWithoutZipSupport"
proof -
  note g = example_container_getlines
  have z: "add_sequences example_flags example_corpus k example_container_path 3 1 s
      = Inl BuiltWithoutZipSupport" for k s
    by (rule add_sequences_no_zip) (simp_all add: example_flags_def example_container_path_at)
  have c: "\<not> CHUNKID_MAX example_flags < curId (initial_locals example_object) + 1"
    by (simp add: example_flags_def initial_locals_def)
  have i: "IsIncluded example_corpus k" for k by (simp add: example_corpus_def)
  have "process_line example_flags example_corpus 5 1 0 example_container_line (initial_locals example_object)
      = Inl BuiltWithoutZipSupport"
    unfolding process_line_def example_container_columns
    by (simp only: sum.case prod.case i strtoull_3 option.case z c if_False not_True_eq_False) simp
  then show ?thesis
    by (simp add: CreateSequenceDescriptions_def g)
qed

text \<open>
  The amended claim C8 on the example object: chunk 0 loads when \<^verbatim>\<open>img1.png\<close> can be
  mapped and fails when it cannot, and the line with the container path fails the build.
\<close>

theorem C8_paths_checked_at_load_container_support_at_build_witness:
  "CreateSequenceDescriptions example_flags example_corpus (Some (example_line @ [CHR 0x0A])) 5 False
     example_object = Inr example_result \<and>
   GetChunk example_flags example_env example_result [] 0 = Inr (example_heap, 0) \<and>
   (\<exists>e. GetChunk example_flags (example_env\<lparr>file_mapping := Map.empty\<rparr>) example_result [] 0 = Inl e) \<and>
   list_all (\<lambda>s. CHR ''@'' \<notin> set (m_path s)) (m_imageSequences example_result) \<and>
   process_line example_flags example_corpus 5 1 0 example_container_line (initial_locals example_object)
     = Inl BuiltWithoutZipSupport"
proof -
  let ?p = "example_container_path"
  note t = C8_paths_checked_at_load_container_support_at_build
    [of example_flags example_corpus "example_line @ [CHR 0x0A]" 5 False example_object example_result
      0 example_container_line "''0''" ?p "''3''" 3 "initial_locals example_object" 1]
  have ok: "CreateSequenceDescriptions example_flags example_corpus (Some (example_line @ [CHR 0x0A])) 5 False
     example_object = Inr example_result \<and> fresh example_object"
    using example_build example_fresh by simp
  have nz: "\<not> USE_ZIP example_flags" by (simp add: example_flags_def)
  from t ok nz have "\<forall>s\<in>set (m_imageSequences example_result). CHR ''@'' \<notin> set (m_path s)" by blast
  then have l: "list_all (\<lambda>s. CHR ''@'' \<notin> set (m_path s)) (m_imageSequences example_result)"
    by (simp add: list_all_iff)
  have pre: "\<not> USE_ZIP example_flags \<and> read_columns 0 example_container_line = Inr (''0'', ?p, ''3'') \<and>
    IsIncluded example_corpus ''0'' \<and> strtoull ''3'' = Some 3 \<and> (3::nat) < 5 \<and>
    curId (initial_locals example_object) + 1 \<le> CHUNKID_MAX example_flags \<and> (0::nat) < 1 \<and> CHR ''@'' \<in> set ?p"
    by (simp add: example_container_columns to_string_0 strtoull_3 example_corpus_def example_flags_def
        initial_locals_def example_container_path_at)
  from t pre have z: "process_line example_flags example_corpus 5 1 0 example_container_line
      (initial_locals example_object) = Inl BuiltWithoutZipSupport" by blast
  have k: "(0::nat) < length (m_chunks example_result)" by (simp add: example_result_fields)
  have s0: "m_imageSequences example_result ! 0 = \<lparr>SequenceDescription.m_id = 0, m_numberOfSamples = 1, m_chunkId = 0,
          m_key = \<lparr>m_sequence = 1, m_sample = 0\<rparr>, m_path = ''img1.png'', m_classId = 3\<rparr>"
    by (simp add: example_result_fields)
  have "ReadImage example_flags (example_env\<lparr>file_mapping := Map.empty\<rparr>) example_result 0
      (m_path (m_imageSequences example_result ! 0)) = Inl (FileMappingFailed ''img1.png'')"
    using t ok by (simp add: s0 example_result_fields)
  then have "\<exists>i. m_startIndex (m_chunks example_result ! 0) \<le> i \<and>
              i < m_startIndex (m_chunks example_result ! 0) + m_numberOfSequences (m_chunks example_result ! 0) \<and>
              (\<exists>e. ReadImage example_flags (example_env\<lparr>file_mapping := Map.empty\<rparr>) example_result i
                 (m_path (m_imageSequences example_result ! i)) = Inl e)"
    by (intro exI [of _ 0]) (simp add: example_result_fields)
  with t ok k have bad: "\<exists>e. GetChunk example_flags (example_env\<lparr>file_mapping := Map.empty\<rparr>) example_result [] 0 = Inl e"
    by blast
  have good: "GetChunk example_flags example_env example_result [] 0 = Inr (example_heap, 0)"
    by (rule example_chunk) (simp_all add: example_result_fields example_env_def)
  from ok good bad l z show ?thesis by blast
qed


subsection \<open>Container-backed paths\<close>

































subsection \<open>The label generator\<close>

text \<open>
  Claim C3. For a generator constructed for \<open>labelDimension\<close> and every class id below
  \<open>labelDimension\<close>, \<^verbatim>\<open>CreateLabelFor\<close> yields a sparse label with one non-zero count,
  whose index pointer reads the single index \<open>classId\<close> and whose value pointer reads the
  single value one; the generator's index vector has \<open>labelDimension\<close> entries, and the
  vector of dimension \<open>labelDimension\<close> the label stands for is zero everywhere except
  for a one at \<open>classId\<close>.
\<close>

theorem C3_one_hot_label:
  assumes "TypedLabelGenerator IndexType_max T labelDimension = Inr g"
    and "classId < labelDimension"
  shows "m_nnzCounts (CreateLabelFor g classId sparse) = [1] \<and>
         m_totalNnzCount (CreateLabelFor g classId sparse) = 1 \<and>
         read_indices g (CreateLabelFor g classId sparse) = Some [classId] \<and>
         read_values g (CreateLabelFor g classId sparse) = Some [1] \<and>
         length (LabelGenerator.m_indices g) = labelDimension \<and>
         dense_vector labelDimension g (CreateLabelFor g classId sparse)
           = Some ((replicate labelDimension 0)[classId := 1])"
proof -
  from assms(1) have g: "g = \<lparr>TElement = T, m_value = 1, m_indices = [0..<labelDimension]\<rparr>"
    by (auto simp: TypedLabelGenerator_def split: if_splits)
  have n: "m_nnzCounts (CreateLabelFor g classId sparse) = [1]"
    by (cases "m_nnzCounts sparse") (simp_all add: CreateLabelFor_def resize1_def)
  have t: "m_totalNnzCount (CreateLabelFor g classId sparse) = 1"
    by (simp add: CreateLabelFor_def)
  have "take 1 (drop classId [0..<labelDimension]) = [classId]"
    using assms(2) by (simp add: take_Suc_conv_app_nth drop_upt hd_drop_conv_nth take_Suc)
  then have i: "read_indices g (CreateLabelFor g classId sparse) = Some [classId]"
    using assms(2) by (simp add: read_indices_def CreateLabelFor_def g)
  have v: "read_values g (CreateLabelFor g classId sparse) = Some [1]"
    by (simp add: read_values_def CreateLabelFor_def g)
  have d: "dense_vector labelDimension g (CreateLabelFor g classId sparse)
           = Some ((replicate labelDimension 0)[classId := 1])"
    using assms(2) by (simp add: dense_vector_def i v)
  show ?thesis using n t i v d by (simp add: g)
qed

theorem C3_one_hot_label_witness:
  "read_columns 0 (''img1.png'' @ [CHR 0x09] @ ''3'') = Inr (''0'', ''img1.png'', ''3'') \<and>
   strtoull ''3'' = Some 3 \<and>
   TypedLabelGenerator 2147483647 tfloat 5 = Inr \<lparr>TElement = tfloat, m_value = 1, m_indices = [0, 1, 2, 3, 4]\<rparr> \<and>
   read_indices \<lparr>TElement = tfloat, m_value = 1, m_indices = [0, 1, 2, 3, 4]\<rparr>
     (CreateLabelFor \<lparr>TElement = tfloat, m_value = 1, m_indices = [0, 1, 2, 3, 4]\<rparr> 3 SparseSequenceData_new) = Some [3] \<and>
   read_values \<lparr>TElement = tfloat, m_value = 1, m_indices = [0, 1, 2, 3, 4]\<rparr>
     (CreateLabelFor \<lparr>TElement = tfloat, m_value = 1, m_indices = [0, 1, 2, 3, 4]\<rparr> 3 SparseSequenceData_new) = Some [1] \<and>
   dense_vector 5 \<lparr>TElement = tfloat, m_value = 1, m_indices = [0, 1, 2, 3, 4]\<rparr>
     (CreateLabelFor \<lparr>TElement = tfloat, m_value = 1, m_indices = [0, 1, 2, 3, 4]\<rparr> 3 SparseSequenceData_new) = Some [0, 0, 0, 1, 0]"
proof -
  have g: "TypedLabelGenerator 2147483647 tfloat 5 = Inr \<lparr>TElement = tfloat, m_value = 1, m_indices = [0, 1, 2, 3, 4]\<rparr>"
    by (simp add: TypedLabelGenerator_def upt_rec)
  have c: "(3::nat) < 5" by simp
  have r: "read_columns 0 (''img1.png'' @ [CHR 0x09] @ ''3'') = Inr (''0'', ''img1.png'', ''3'')"
    by (simp add: read_columns_def getline_def old_format_def to_string.simps digit_char_def)
  have s: "strtoull ''3'' = Some 3"
    by (simp add: strtoull_def isspace_def isdigit_def decimal_value_def digit_value_def ULLONG_MAX_def)
  have "(replicate 5 (0::int))[3 := 1] = [0, 0, 0, 1, 0]"
    by (simp add: numeral_eq_Suc)
  with C3_one_hot_label [OF g c, of SparseSequenceData_new] r s g show ?thesis
    by simp
qed


end
